theory Spec2Isabelle
  imports Main "HOL-Library.Dlist"
begin

section \<open>Values\<close>

text \<open>
  A parsed JSON document. An object is the list of its own properties, in insertion
  order; \<open>JSON.parse\<close> yields at most one entry per name.
\<close>

datatype json =
    JNull
  | JBool bool
  | JNumber int
  | JString string
  | JArray "json list"
  | JObject "(string \<times> json) list"

text \<open>A JavaScript value as the library reads it from a command: \<open>None\<close> is \<open>undefined\<close>.\<close>

type_synonym jsvalue = "json option"

text \<open>The test of \<open>if (v)\<close>.\<close>

fun truthy :: "jsvalue \<Rightarrow> bool" where
  "truthy None = False"
| "truthy (Some JNull) = False"
| "truthy (Some (JBool b)) = b"
| "truthy (Some (JNumber n)) = (n \<noteq> 0)"
| "truthy (Some (JString s)) = (s \<noteq> [])"
| "truthy (Some (JArray xs)) = True"
| "truthy (Some (JObject kvs)) = True"

text \<open>
  The property read \<open>m.k\<close> on a parsed document, for the names the library reads
  (\<open>command\<close>, \<open>type\<close>, \<open>event\<close>, \<open>name\<close>, \<open>values\<close>, \<open>id\<close>, ...): none of them is
  inherited by a string, a number, a boolean or an array, so only objects have them.
\<close>

fun field :: "json \<Rightarrow> string \<Rightarrow> jsvalue" where
  "field (JObject kvs) k = map_of kvs k"
| "field _ k = None"

text \<open>The assignment \<open>o[k] = v\<close> on an object: an existing property keeps its place.\<close>

fun setProperty :: "string \<Rightarrow> json \<Rightarrow> (string \<times> json) list \<Rightarrow> (string \<times> json) list" where
  "setProperty k v [] = [(k, v)]"
| "setProperty k v (p # ps) = (if fst p = k then (k, v) # ps else p # setProperty k v ps)"

text \<open>
  An object literal as it is serialised: \<open>JSON.stringify\<close> leaves out a property whose
  value is \<open>undefined\<close>.
\<close>

fun object :: "(string \<times> jsvalue) list \<Rightarrow> (string \<times> json) list" where
  "object [] = []"
| "object ((k, None) # ps) = object ps"
| "object ((k, Some v) # ps) = (k, v) # object ps"

text \<open>
  Keys of a JavaScript \<open>Map\<close> are compared by value for primitives and by reference for
  arrays and objects. A key read from a parsed command is a fresh reference when it is
  an array or an object: no entry is ever found under it, and an entry stored under it
  is never found again.
\<close>

fun isReference :: "jsvalue \<Rightarrow> bool" where
  "isReference (Some (JArray xs)) = True"
| "isReference (Some (JObject kvs)) = True"
| "isReference v = False"

definition Map_get :: "(jsvalue \<rightharpoonup> 'v) \<Rightarrow> jsvalue \<Rightarrow> 'v option" where
  "Map_get m k = (if isReference k then None else m k)"

definition Map_has :: "(jsvalue \<rightharpoonup> 'v) \<Rightarrow> jsvalue \<Rightarrow> bool" where
  "Map_has m k = (Map_get m k \<noteq> None)"

definition Map_set :: "(jsvalue \<rightharpoonup> 'v) \<Rightarrow> jsvalue \<Rightarrow> 'v \<Rightarrow> (jsvalue \<rightharpoonup> 'v)" where
  "Map_set m k v = (if isReference k then m else m(k \<mapsto> v))"

definition Map_delete :: "(jsvalue \<rightharpoonup> 'v) \<Rightarrow> jsvalue \<Rightarrow> (jsvalue \<rightharpoonup> 'v)" where
  "Map_delete m k = (if isReference k then m else m(k := None))"

text \<open>
  A JavaScript \<open>Set\<close> of callback references is a list without repetition, in insertion
  order: \<open>add\<close> appends a new member and ignores a present one, \<open>delete\<close> removes a
  member, \<open>forEach\<close> visits \<open>list_of_dlist\<close> from the front.
\<close>

definition Set_add :: "'a \<Rightarrow> 'a dlist \<Rightarrow> 'a dlist" where
  "Set_add x xs =
     (if x \<in> set (list_of_dlist xs) then xs else Dlist (list_of_dlist xs @ [x]))"

definition Set_delete :: "'a \<Rightarrow> 'a dlist \<Rightarrow> 'a dlist" where
  "Set_delete x xs = Dlist.remove x xs"

section \<open>The client's state and its effects\<close>

text \<open>
  Application callbacks, promises and shared objects are references: a callback is
  known by its handle, and what the library does with it is recorded. The library
  never looks inside a callback; the model takes a callback to return normally and
  not to call back into the client.
\<close>

type_synonym callback = nat
type_synonym promise = nat
type_synonym ref = nat

datatype error =
    TypeError
  | SendError
  | Thrown jsvalue

text \<open>
  What the client does to the outside, in order:
  \<^item> \<open>Invoke f args\<close>: the application callback \<open>f\<close> is called with \<open>args\<close>;
  \<^item> \<open>InvokeWithClient f\<close>: a connection listener is called with the client itself;
  \<^item> \<open>Resolve p v\<close>, \<open>Reject p v\<close>: the resolve or reject function of promise \<open>p\<close> is called;
  \<^item> \<open>Transmit m\<close>: \<open>socket.send(encodeURI(JSON.stringify(m)))\<close> returned normally;
  \<^item> \<open>NewWebSocket url\<close>, \<open>CloseSocket\<close>: a transport is opened, \<open>close()\<close> is called on it;
  \<^item> \<open>SetTimeout ms\<close>: the reconnect attempt is scheduled;
  \<^item> \<open>ConsoleLog tag m\<close>: the debug output.
\<close>

datatype effect =
    Invoke callback "jsvalue list"
  | InvokeWithClient callback
  | Resolve promise jsvalue
  | Reject promise jsvalue
  | Transmit json
  | NewWebSocket string
  | CloseSocket
  | SetTimeout nat
  | ConsoleLog string json

text \<open>
  What a registered RMI function does when it is called: it throws, it returns a
  value, or it returns a promise that the application settles later.
\<close>

datatype outcome =
    Throws jsvalue
  | Returns jsvalue
  | ReturnsPromise promise

datatype settlement =
    Fulfilled jsvalue
  | Rejected jsvalue

datatype scope = GLOBAL | GROUP | CLIENT

text \<open>
  The transport is not part of the library. Of its state the model keeps whether
  \<open>send\<close> returns normally now (\<open>accepting\<close>) or throws; a transport that was just
  constructed is still connecting and does not accept frames.
\<close>

record webSocket =
  url :: string
  accepting :: bool

text \<open>What a plain object inherits from: \<open>Object.prototype\<close>, nothing, or an object.\<close>

datatype prototype = ObjectPrototype | NoPrototype | Inherits json

record sharedObject =
  name :: jsvalue
  type :: scope
  readOnly :: bool
  rawData :: "string \<rightharpoonup> json"
  prototype :: prototype
  onChangeHandler :: "callback option"

record configs =
  autoConnect :: bool
  autoReconnect :: bool
  reconnectDelay :: nat
  debug :: bool

text \<open>The constructor's optional settings: \<open>None\<close> is a setting left out.\<close>

record syncsConfig =
  cfg_autoConnect :: "bool option"
  cfg_autoReconnect :: "bool option"
  cfg_reconnectDelay :: "nat option"
  cfg_debug :: "bool option"

text \<open>
  The fields of class \<open>Syncs\<close>, then the shared objects it holds references to
  (\<open>objects\<close>, the next free reference \<open>nextRef\<close>), the promises pending on an
  inbound call (\<open>reactions\<close>: the \<open>then\<close>/\<open>catch\<close> pair registered on the promise, with the
  call's id), the next free promise and the effects so far.
\<close>

record syncs =
  socketId :: jsvalue
  online :: bool
  configs :: configs
  onMessageListeners :: "callback list"
  handledClose :: bool
  subscriptions :: "jsvalue \<rightharpoonup> callback dlist"
  globalSharedObjects :: "jsvalue \<rightharpoonup> ref"
  groupSharedObjects :: "jsvalue \<rightharpoonup> (jsvalue \<rightharpoonup> ref)"
  clientSharedObjects :: "jsvalue \<rightharpoonup> ref"
  rmiFunctions :: "string \<rightharpoonup> (jsvalue list \<Rightarrow> outcome)"
  rmiResultCallbacks :: "jsvalue \<rightharpoonup> promise"
  path :: string
  socket :: "webSocket option"
  onOpenListener :: "callback option"
  onCloseListener :: "callback option"
  onDisconnectListener :: "callback option"
  objects :: "ref \<rightharpoonup> sharedObject"
  nextRef :: ref
  reactions :: "(promise \<times> jsvalue) list"
  nextPromise :: promise
  effects :: "effect list"

text \<open>
  The text codec is not part of the library either: \<open>decodeURI\<close> and \<open>JSON.parse\<close> are
  parameters, \<open>None\<close> where they throw.
\<close>

record codec =
  decodeURI :: "string \<Rightarrow> string option"
  JSON_parse :: "string \<Rightarrow> json option"

text \<open>
  A method that can throw returns its exception (\<open>Inl\<close>) or its value (\<open>Inr\<close>), and in
  both cases the state it leaves: an exception does not undo the assignments before it.
\<close>

type_synonym 'a result = "(error + 'a) \<times> syncs"

definition emit :: "effect \<Rightarrow> syncs \<Rightarrow> syncs" where
  "emit e s = s\<lparr>effects := effects s @ [e]\<rparr>"

text \<open>Calling each callback of a list in order with the same arguments.\<close>

fun invokeEach :: "callback list \<Rightarrow> jsvalue list \<Rightarrow> syncs \<Rightarrow> syncs" where
  "invokeEach [] args s = s"
| "invokeEach (f # fs) args s = invokeEach fs args (emit (Invoke f args) s)"

section \<open>Class Syncs: connection\<close>

definition initializeConfigs :: "syncsConfig \<Rightarrow> configs" where
  "initializeConfigs c =
     \<lparr>autoConnect = (case cfg_autoConnect c of None \<Rightarrow> True | Some b \<Rightarrow> b),
      autoReconnect = (case cfg_autoReconnect c of None \<Rightarrow> True | Some b \<Rightarrow> b),
      reconnectDelay = (case cfg_reconnectDelay c of None \<Rightarrow> 1000
                        | Some d \<Rightarrow> if d = 0 then 1000 else d),
      debug = (case cfg_debug c of None \<Rightarrow> False | Some b \<Rightarrow> b)\<rparr>"

definition enableDebugMode :: "syncs \<Rightarrow> syncs" where
  "enableDebugMode s = s\<lparr>configs := (configs s)\<lparr>debug := True\<rparr>\<rparr>"

definition disableDebugMode :: "syncs \<Rightarrow> syncs" where
  "disableDebugMode s = s\<lparr>configs := (configs s)\<lparr>debug := False\<rparr>\<rparr>"

text \<open>
  \<open>connect\<close> replaces the transport by a new one and attaches the message and close
  listeners to it; the listeners are \<open>handleOnMessage\<close> and \<open>handleOnClose\<close> below, which
  the environment calls when the transport raises the event.
\<close>

definition connect :: "syncs \<Rightarrow> syncs" where
  "connect s =
     (if online s then s
      else emit (NewWebSocket (path s)) (s\<lparr>socket := Some \<lparr>url = path s, accepting = False\<rparr>\<rparr>))"

definition Syncs :: "string \<Rightarrow> syncsConfig \<Rightarrow> syncs" where
  "Syncs p c =
     (let s = \<lparr>socketId = Some JNull, online = False, configs = initializeConfigs c,
                onMessageListeners = [], handledClose = False, subscriptions = Map.empty,
                globalSharedObjects = Map.empty, groupSharedObjects = Map.empty,
                clientSharedObjects = Map.empty, rmiFunctions = Map.empty,
                rmiResultCallbacks = Map.empty, path = p, socket = None,
                onOpenListener = None, onCloseListener = None, onDisconnectListener = None,
                objects = Map.empty, nextRef = 0, reactions = [], nextPromise = 0,
                effects = []\<rparr>
      in if autoConnect (configs s) then connect s else s)"

text \<open>The listener of the transport's \<open>close\<close> event, and the timer it may start.\<close>

definition reconnectTimeout :: "syncs \<Rightarrow> syncs" where
  "reconnectTimeout s = (if \<not> online s then connect s else s)"

definition handleOnClose :: "syncs \<Rightarrow> syncs" where
  "handleOnClose s0 =
     (let s = s0\<lparr>online := False\<rparr> in
      if handledClose s \<or> \<not> autoReconnect (configs s) then
        (let s1 = s\<lparr>handledClose := False\<rparr> in
         case onCloseListener s1 of
           Some f \<Rightarrow> emit (InvokeWithClient f) s1
         | None \<Rightarrow> s1)
      else
        (let s1 = (case onDisconnectListener s of
                     Some f \<Rightarrow> emit (InvokeWithClient f) s
                   | None \<Rightarrow> s)
         in emit (SetTimeout (reconnectDelay (configs s1))) s1))"

definition disconnect :: "syncs \<Rightarrow> unit result" where
  "disconnect s0 =
     (let s = s0\<lparr>handledClose := True\<rparr> in
      case socket s of
        None \<Rightarrow> (Inl TypeError, s)
      | Some w \<Rightarrow> (Inr (), emit CloseSocket s))"

definition onOpen :: "callback \<Rightarrow> syncs \<Rightarrow> syncs" where
  "onOpen callback s = s\<lparr>onOpenListener := Some callback\<rparr>"

definition onClose :: "callback \<Rightarrow> syncs \<Rightarrow> syncs" where
  "onClose callback s = s\<lparr>onCloseListener := Some callback\<rparr>"

definition onDisconnect :: "callback \<Rightarrow> syncs \<Rightarrow> syncs" where
  "onDisconnect callback s = s\<lparr>onDisconnectListener := Some callback\<rparr>"

definition parseMessage :: "codec \<Rightarrow> string \<Rightarrow> json" where
  "parseMessage cd message =
     (case decodeURI cd message of
        None \<Rightarrow> JBool False
      | Some text \<Rightarrow> (case JSON_parse cd text of None \<Rightarrow> JBool False | Some v \<Rightarrow> v))"

definition onMessage :: "callback \<Rightarrow> syncs \<Rightarrow> syncs" where
  "onMessage listener s = s\<lparr>onMessageListeners := onMessageListeners s @ [listener]\<rparr>"

section \<open>Sending\<close>

text \<open>\<open>this.socket.send(encodeURI(JSON.stringify(message)))\<close>: without a transport the
  property read throws; a transport that does not accept the frame throws.\<close>

definition socket_send :: "json \<Rightarrow> syncs \<Rightarrow> unit result" where
  "socket_send message s =
     (case socket s of
        None \<Rightarrow> (Inl TypeError, s)
      | Some w \<Rightarrow> if accepting w then (Inr (), emit (Transmit message) s) else (Inl SendError, s))"

definition send :: "json \<Rightarrow> syncs \<Rightarrow> bool result" where
  "send message s =
     (if online s then
        (case socket_send message s of
           (Inl e, s1) \<Rightarrow> (Inl e, s1)
         | (Inr u, s1) \<Rightarrow> (Inr True, s1))
      else (Inr False, s))"

text \<open>
  \<open>message.command = true\<close> in strict mode: it adds the property to an object; on an
  array it adds a property that \<open>JSON.stringify\<close> does not write; on \<open>null\<close> and on a
  primitive it throws.
\<close>

fun setCommand :: "json \<Rightarrow> error + json" where
  "setCommand (JObject kvs) = Inr (JObject (setProperty ''command'' (JBool True) kvs))"
| "setCommand (JArray xs) = Inr (JArray xs)"
| "setCommand v = Inl TypeError"

text \<open>The body of the \<open>try\<close> block of \<open>sendCommand\<close>, then the method with its \<open>catch\<close>.\<close>

definition sendCommand_try :: "json \<Rightarrow> syncs \<Rightarrow> bool result" where
  "sendCommand_try message s =
     (case setCommand message of
        Inl e \<Rightarrow> (Inl e, s)
      | Inr m \<Rightarrow>
          (let s1 = (if debug (configs s) then emit (ConsoleLog ''OUTPUT COMMAND:'' m) s else s) in
           case socket_send m s1 of
             (Inl e, s2) \<Rightarrow> (Inl e, s2)
           | (Inr u, s2) \<Rightarrow> (Inr True, s2)))"

definition sendCommand :: "json \<Rightarrow> syncs \<Rightarrow> bool result" where
  "sendCommand message s =
     (case sendCommand_try message s of
        (Inl e, s1) \<Rightarrow> (Inr False, s1)
      | (Inr b, s1) \<Rightarrow> (Inr b, s1))"

definition sendSocketId :: "syncs \<Rightarrow> syncs" where
  "sendSocketId s =
     (if truthy (socketId s) then
        (snd (sendCommand (JObject (object [(''type'', Some (JString ''reportSocketId'')),
                                             (''socketId'', socketId s)])) s))\<lparr>online := True\<rparr>
      else
        snd (sendCommand (JObject (object [(''type'', Some (JString ''reportSocketId'')),
                                            (''socketId'', Some JNull)])) s))"

section \<open>Event layer\<close>

definition handleEvent :: "json \<Rightarrow> syncs \<Rightarrow> syncs" where
  "handleEvent command s =
     (if truthy (field command ''event'') then
        (case Map_get (subscriptions s) (field command ''event'') of
           Some subscription \<Rightarrow>
             invokeEach (list_of_dlist subscription) [field command ''data''] s
         | None \<Rightarrow> s)
      else s)"

definition subscribe :: "string \<Rightarrow> callback \<Rightarrow> syncs \<Rightarrow> syncs" where
  "subscribe event callback s =
     (let k = Some (JString event);
          m = (if \<not> Map_has (subscriptions s) k then Map_set (subscriptions s) k Dlist.empty
               else subscriptions s)
      in case Map_get m k of
           Some subscription \<Rightarrow> s\<lparr>subscriptions := Map_set m k (Set_add callback subscription)\<rparr>
         | None \<Rightarrow> s\<lparr>subscriptions := m\<rparr>)"

definition unSubscribe :: "string \<Rightarrow> callback \<Rightarrow> syncs \<Rightarrow> syncs" where
  "unSubscribe event callback s =
     (let k = Some (JString event) in
      case Map_get (subscriptions s) k of
        None \<Rightarrow> s
      | Some subscription \<Rightarrow>
          s\<lparr>subscriptions := Map_set (subscriptions s) k (Set_delete callback subscription)\<rparr>)"

definition publish :: "string \<Rightarrow> jsvalue \<Rightarrow> syncs \<Rightarrow> bool result" where
  "publish event data s =
     sendCommand (JObject (object [(''type'', Some (JString ''event'')),
                                    (''event'', Some (JString event)),
                                    (''data'', data)])) s"

section \<open>Class SharedObject\<close>

text \<open>
  \<open>n.toString(b)\<close> for a non-negative integer \<open>n\<close>; the library uses radix 16 (request
  identifiers), and the indices of an array are decimal.
\<close>

fun digit :: "nat \<Rightarrow> char" where
  "digit n = ''0123456789abcdef'' ! (n mod 16)"

fun toStringRadix :: "nat \<Rightarrow> nat \<Rightarrow> string" where
  "toStringRadix b n =
     (if b < 2 \<or> n < b then [digit n] else toStringRadix b (n div b) @ [digit (n mod b)])"

text \<open>
  \<open>for (let key in values)\<close> with \<open>values[key]\<close>: the properties of an object, the
  indices of an array or of a string, nothing for \<open>undefined\<close>, \<open>null\<close>, a number
  or a boolean.
\<close>

fun forIn :: "jsvalue \<Rightarrow> (string \<times> json) list" where
  "forIn (Some (JObject kvs)) = kvs"
| "forIn (Some (JArray xs)) = zip (map (toStringRadix 10) [0..<length xs]) xs"
| "forIn (Some (JString cs)) =
     zip (map (toStringRadix 10) [0..<length cs]) (map (\<lambda>c. JString [c]) cs)"
| "forIn v = []"

text \<open>
  A shared object's data (\<open>rawData.data\<close>) is a plain object used as a dictionary:
  \<open>rawData\<close> holds its own properties and \<open>prototype\<close> the object it inherits from,
  at first \<open>Object.prototype\<close>. The name \<open>__proto__\<close> is not a key like the others.
  \<open>Object.prototype\<close> has an accessor of that name: reading it gives the prototype, and
  assigning to it replaces the prototype when the value is an object (or removes it
  when the value is \<open>null\<close>) and does nothing when the value is a primitive. The
  accessor is reached unless the data has no prototype any more, or the data or its
  prototype has an own property \<open>__proto__\<close> (a parsed object can have one); then the
  name is a key like the others.

  Values are written in their JSON form; \<open>Object.prototype\<close> itself has the form \<open>{}\<close>.
  The other members that every object inherits (\<open>toString\<close>, \<open>constructor\<close>, ...) are
  functions, for which the model has no value: the model treats these names as absent
  until they are assigned, and no statement below reads one.
\<close>

text \<open>The own properties of a prototype \<open>p\<close>, an object or an array.\<close>

fun ownProperty :: "json \<Rightarrow> string \<Rightarrow> jsvalue" where
  "ownProperty (JObject kvs) k = map_of kvs k"
| "ownProperty (JArray xs) k =
     (if k = ''length'' then Some (JNumber (int (length xs)))
      else map_of (forIn (Some (JArray xs))) k)"
| "ownProperty v k = None"

text \<open>Whether \<open>data.__proto__ = v\<close> reaches the accessor of \<open>Object.prototype\<close>.\<close>

definition reachesAccessor :: "sharedObject \<Rightarrow> bool" where
  "reachesAccessor obj =
     (rawData obj ''__proto__'' = None \<and>
      (case prototype obj of
         ObjectPrototype \<Rightarrow> True
       | NoPrototype \<Rightarrow> False
       | Inherits p \<Rightarrow> ownProperty p ''__proto__'' = None))"

text \<open>The assignment \<open>this.rawData.data[k] = v\<close>.\<close>

definition assign :: "string \<Rightarrow> json \<Rightarrow> sharedObject \<Rightarrow> sharedObject" where
  "assign k v obj =
     (if k = ''__proto__'' \<and> reachesAccessor obj then
        (case v of
           JNull \<Rightarrow> obj\<lparr>prototype := NoPrototype\<rparr>
         | JObject kvs \<Rightarrow> obj\<lparr>prototype := Inherits v\<rparr>
         | JArray xs \<Rightarrow> obj\<lparr>prototype := Inherits v\<rparr>
         | _ \<Rightarrow> obj)
      else obj\<lparr>rawData := (rawData obj)(k \<mapsto> v)\<rparr>)"

text \<open>The read \<open>this.rawData.data[k]\<close>: \<open>None\<close> when \<open>k in this.rawData.data\<close> is false.\<close>

definition lookup :: "sharedObject \<Rightarrow> string \<Rightarrow> jsvalue" where
  "lookup obj k =
     (case rawData obj k of
        Some v \<Rightarrow> Some v
      | None \<Rightarrow>
          (case prototype obj of
             NoPrototype \<Rightarrow> None
           | ObjectPrototype \<Rightarrow> if k = ''__proto__'' then Some (JObject []) else None
           | Inherits p \<Rightarrow>
               (case ownProperty p k of
                  Some v \<Rightarrow> Some v
                | None \<Rightarrow> if k = ''__proto__'' then Some p else None)))"

text \<open>
  The application holds the object's reactive view, the \<open>Proxy\<close> whose traps are
  \<open>onGet\<close>, \<open>onSet\<close> and \<open>onApply\<close>; the view is the reference \<open>r\<close> of the object, and a
  reference always points to an object of \<open>objects\<close>.
\<close>

definition globalLevel :: "jsvalue \<Rightarrow> (string \<rightharpoonup> json) \<Rightarrow> sharedObject" where
  "globalLevel n initializeData =
     \<lparr>name = n, type = GLOBAL, readOnly = True, rawData = initializeData,
      prototype = ObjectPrototype, onChangeHandler = None\<rparr>"

definition groupLevel :: "jsvalue \<Rightarrow> (string \<rightharpoonup> json) \<Rightarrow> sharedObject" where
  "groupLevel n initializeData =
     \<lparr>name = n, type = GROUP, readOnly = True, rawData = initializeData,
      prototype = ObjectPrototype, onChangeHandler = None\<rparr>"

definition clientLevel :: "jsvalue \<Rightarrow> (string \<rightharpoonup> json) \<Rightarrow> sharedObject" where
  "clientLevel n initializeData =
     \<lparr>name = n, type = CLIENT, readOnly = False, rawData = initializeData,
      prototype = ObjectPrototype, onChangeHandler = None\<rparr>"

text \<open>\<open>new SharedObject()\<close> held by the client: the object gets the next reference.\<close>

definition allocate :: "sharedObject \<Rightarrow> syncs \<Rightarrow> ref \<times> syncs" where
  "allocate obj s =
     (nextRef s, s\<lparr>objects := (objects s)(nextRef s \<mapsto> obj), nextRef := Suc (nextRef s)\<rparr>)"

definition onGet :: "ref \<Rightarrow> string \<Rightarrow> syncs \<Rightarrow> json" where
  "onGet r property s =
     (case objects s r of
        None \<Rightarrow> JNull
      | Some obj \<Rightarrow> (case lookup obj property of Some v \<Rightarrow> v | None \<Rightarrow> JNull))"

definition onApply :: "ref \<Rightarrow> callback list \<Rightarrow> syncs \<Rightarrow> syncs" where
  "onApply r argumentsList s =
     (case objects s r of
        None \<Rightarrow> s
      | Some obj \<Rightarrow>
          (case argumentsList of
             [] \<Rightarrow> s
           | f # fs \<Rightarrow> s\<lparr>objects := (objects s)(r \<mapsto> obj\<lparr>onChangeHandler := Some f\<rparr>)\<rparr>))"

definition sendSyncCommand :: "ref \<Rightarrow> string \<Rightarrow> syncs \<Rightarrow> syncs" where
  "sendSyncCommand r property s =
     (case objects s r of
        None \<Rightarrow> s
      | Some obj \<Rightarrow>
          snd (sendCommand (JObject (object [(''type'', Some (JString ''sync'')),
                                             (''name'', name obj),
                                             (''scope'', Some (JString ''CLIENT'')),
                                             (''key'', Some (JString property)),
                                             (''value'', lookup obj property)])) s))"

text \<open>
  In \<open>onSet\<close> the listener's argument is built by \<open>values = {}; values[property] = value\<close>:
  the same assignment on a fresh object, which stores nothing under \<open>__proto__\<close> (an
  object value becomes the prototype of \<open>values\<close>, which the JSON form does not show).
\<close>

definition valuesOf :: "string \<Rightarrow> json \<Rightarrow> json" where
  "valuesOf property v = JObject (if property = ''__proto__'' then [] else [(property, v)])"

definition onSet :: "ref \<Rightarrow> string \<Rightarrow> json \<Rightarrow> syncs \<Rightarrow> bool \<times> syncs" where
  "onSet r property v s =
     (case objects s r of
        None \<Rightarrow> (False, s)
      | Some obj \<Rightarrow>
          if readOnly obj then (False, s)
          else
            (let obj1 = assign property v obj;
                 s1 = s\<lparr>objects := (objects s)(r \<mapsto> obj1)\<rparr>;
                 s2 = (case onChangeHandler obj1 of
                         Some f \<Rightarrow>
                           emit (Invoke f [Some (JObject [(''values'', valuesOf property v),
                                                         (''by'', JString ''client'')])]) s1
                       | None \<Rightarrow> s1)
             in (True, sendSyncCommand r property s2)))"

fun assignAll :: "(string \<times> json) list \<Rightarrow> sharedObject \<Rightarrow> sharedObject" where
  "assignAll [] obj = obj"
| "assignAll ((k, v) # kvs) obj = assignAll kvs (assign k v obj)"

definition setProperties :: "ref \<Rightarrow> jsvalue \<Rightarrow> syncs \<Rightarrow> syncs" where
  "setProperties r values s =
     (case objects s r of
        None \<Rightarrow> s
      | Some obj \<Rightarrow>
          (let obj1 = assignAll (forIn values) obj;
               s1 = s\<lparr>objects := (objects s)(r \<mapsto> obj1)\<rparr>
           in case onChangeHandler obj1 of
                Some f \<Rightarrow>
                  emit (Invoke f [Some (JObject (object [(''values'', values),
                                                         (''by'', Some (JString ''server''))]))]) s1
              | None \<Rightarrow> s1))"

section \<open>Shared object layer\<close>

definition setGlobalSharedObject :: "json \<Rightarrow> syncs \<Rightarrow> syncs" where
  "setGlobalSharedObject command s =
     (case Map_get (globalSharedObjects s) (field command ''name'') of
        Some r \<Rightarrow> setProperties r (field command ''values'') s
      | None \<Rightarrow>
          (let (r, s1) = allocate (globalLevel (field command ''name'') Map.empty) s in
           s1\<lparr>globalSharedObjects :=
                 Map_set (globalSharedObjects s1) (field command ''name'') r\<rparr>))"

text \<open>
  In \<open>setGroupSharedObject\<close> the group's table is read back under the key it was just
  stored under. When that key is an array or an object the table is found all the
  same (it is the same reference), a new object is created in it, and neither can be
  reached again: the \<open>None\<close> case below.
\<close>

definition setGroupSharedObject :: "json \<Rightarrow> syncs \<Rightarrow> syncs" where
  "setGroupSharedObject command s =
     (let groups = (if \<not> Map_has (groupSharedObjects s) (field command ''group'')
                    then Map_set (groupSharedObjects s) (field command ''group'') Map.empty
                    else groupSharedObjects s);
          s0 = s\<lparr>groupSharedObjects := groups\<rparr>
      in case Map_get groups (field command ''group'') of
           None \<Rightarrow> snd (allocate (groupLevel (field command ''name'') Map.empty) s0)
         | Some grp \<Rightarrow>
             (case Map_get grp (field command ''name'') of
                Some r \<Rightarrow> setProperties r (field command ''values'') s0
              | None \<Rightarrow>
                  (let (r, s1) = allocate (groupLevel (field command ''name'') Map.empty) s0 in
                   s1\<lparr>groupSharedObjects :=
                         Map_set groups (field command ''group'')
                           (Map_set grp (field command ''name'') r)\<rparr>)))"

definition setClientSharedObject :: "json \<Rightarrow> syncs \<Rightarrow> syncs" where
  "setClientSharedObject command s =
     (case Map_get (clientSharedObjects s) (field command ''name'') of
        Some r \<Rightarrow> setProperties r (field command ''values'') s
      | None \<Rightarrow>
          (let (r, s1) = allocate (clientLevel (field command ''name'') Map.empty) s in
           s1\<lparr>clientSharedObjects :=
                 Map_set (clientSharedObjects s1) (field command ''name'') r\<rparr>))"

definition handleSync :: "json \<Rightarrow> syncs \<Rightarrow> syncs" where
  "handleSync command s =
     (if field command ''scope'' = Some (JString ''GLOBAL'') then setGlobalSharedObject command s
      else if field command ''scope'' = Some (JString ''GROUP'') then setGroupSharedObject command s
      else if field command ''scope'' = Some (JString ''CLIENT'') then setClientSharedObject command s
      else s)"

definition shared :: "string \<Rightarrow> syncs \<Rightarrow> ref \<times> syncs" where
  "shared n s =
     (case Map_get (clientSharedObjects s) (Some (JString n)) of
        Some r \<Rightarrow> (r, s)
      | None \<Rightarrow>
          (let (r, s1) = allocate (clientLevel (Some (JString n)) Map.empty) s in
           (r, s1\<lparr>clientSharedObjects :=
                     Map_set (clientSharedObjects s1) (Some (JString n)) r\<rparr>)))"

definition groupShared :: "string \<Rightarrow> string \<Rightarrow> syncs \<Rightarrow> ref \<times> syncs" where
  "groupShared g n s =
     (let grp = (case Map_get (groupSharedObjects s) (Some (JString g)) of
                     None \<Rightarrow> Map.empty
                   | Some m \<Rightarrow> m)
      in case Map_get grp (Some (JString n)) of
           Some r \<Rightarrow> (r, s\<lparr>groupSharedObjects :=
                              Map_set (groupSharedObjects s) (Some (JString g)) grp\<rparr>)
         | None \<Rightarrow>
             (let (r, s1) = allocate (groupLevel (Some (JString n)) Map.empty) s in
              (r, s1\<lparr>groupSharedObjects :=
                        Map_set (groupSharedObjects s1) (Some (JString g))
                          (Map_set grp (Some (JString n)) r)\<rparr>)))"

definition globalShared :: "string \<Rightarrow> syncs \<Rightarrow> ref \<times> syncs" where
  "globalShared n s =
     (case Map_get (globalSharedObjects s) (Some (JString n)) of
        Some r \<Rightarrow> (r, s)
      | None \<Rightarrow>
          (let (r, s1) = allocate (globalLevel (Some (JString n)) Map.empty) s in
           (r, s1\<lparr>globalSharedObjects :=
                     Map_set (globalSharedObjects s1) (Some (JString n)) r\<rparr>)))"

section \<open>RMI layer\<close>

text \<open>
  \<open>io.functions.f = g\<close> goes through the proxy's \<open>set\<close> trap into \<open>rmiFunctions\<close>. The
  registry is a plain object: as for a shared object's data, only its own properties
  are modelled.
\<close>

definition functions_set :: "string \<Rightarrow> (jsvalue list \<Rightarrow> outcome) \<Rightarrow> syncs \<Rightarrow> syncs" where
  "functions_set property v s = s\<lparr>rmiFunctions := (rmiFunctions s)(property \<mapsto> v)\<rparr>"

text \<open>The property key of a value (\<open>command.name in this.functions\<close>): its string form.\<close>

fun toString :: "json \<Rightarrow> string"
  and join :: "json list \<Rightarrow> string" where
  "toString JNull = ''null''"
| "toString (JBool b) = (if b then ''true'' else ''false'')"
| "toString (JNumber n) =
     (if n < 0 then ''-'' @ toStringRadix 10 (nat (- n)) else toStringRadix 10 (nat n))"
| "toString (JString cs) = cs"
| "toString (JArray xs) = join xs"
| "toString (JObject kvs) = ''[object Object]''"
| "join [] = []"
| "join [x] = (if x = JNull then [] else toString x)"
| "join (x # y # ys) = (if x = JNull then [] else toString x) @ '','' @ join (y # ys)"

fun propertyKey :: "jsvalue \<Rightarrow> string" where
  "propertyKey None = ''undefined''"
| "propertyKey (Some v) = toString v"

text \<open>The spread \<open>...command.args\<close>: the elements of an array, the characters of a
  string; any other value is not iterable.\<close>

fun spread :: "jsvalue \<Rightarrow> error + jsvalue list" where
  "spread (Some (JArray xs)) = Inr (map Some xs)"
| "spread (Some (JString cs)) = Inr (map (\<lambda>c. Some (JString [c])) cs)"
| "spread v = Inl TypeError"

definition sendRMICommand :: "string \<Rightarrow> json list \<Rightarrow> string \<Rightarrow> syncs \<Rightarrow> syncs" where
  "sendRMICommand n args i s =
     snd (sendCommand (JObject (object [(''type'', Some (JString ''rmi'')),
                                        (''id'', Some (JString i)),
                                        (''name'', Some (JString n)),
                                        (''args'', Some (JArray args))])) s)"

definition sendRmiResultCommand :: "jsvalue \<Rightarrow> jsvalue \<Rightarrow> jsvalue \<Rightarrow> syncs \<Rightarrow> syncs" where
  "sendRmiResultCommand result err i s =
     snd (sendCommand (JObject (object [(''type'', Some (JString ''rmi-result'')),
                                        (''id'', i),
                                        (''result'', result),
                                        (''error'', err)])) s)"

text \<open>
  An inbound call. When the function returns a promise, \<open>then\<close> and \<open>catch\<close> register
  the two replies on it (\<open>reactions\<close>); \<open>promiseSettled\<close> is what they do when the
  application settles the promise.
\<close>

definition handleRMICommand :: "json \<Rightarrow> syncs \<Rightarrow> unit result" where
  "handleRMICommand command s =
     (case rmiFunctions s (propertyKey (field command ''name'')) of
        Some f \<Rightarrow>
          (case spread (field command ''args'') of
             Inl e \<Rightarrow> (Inl e, s)
           | Inr args \<Rightarrow>
               (case f args of
                  Throws e \<Rightarrow> (Inl (Thrown e), s)
                | ReturnsPromise p \<Rightarrow>
                    (Inr (), s\<lparr>reactions := reactions s @ [(p, field command ''id'')]\<rparr>)
                | Returns result \<Rightarrow>
                    (Inr (), sendRmiResultCommand result (Some JNull) (field command ''id'') s)))
      | None \<Rightarrow>
          (Inr (), sendRmiResultCommand (Some JNull) (Some (JString ''undefined''))
                     (field command ''id'') s))"

fun react :: "settlement \<Rightarrow> jsvalue \<Rightarrow> syncs \<Rightarrow> syncs" where
  "react (Fulfilled promiseResult) i s = sendRmiResultCommand promiseResult (Some JNull) i s"
| "react (Rejected e) i s =
     sendRmiResultCommand (Some JNull) (Some (JString ''function error'')) i s"

fun reactAll :: "settlement \<Rightarrow> jsvalue list \<Rightarrow> syncs \<Rightarrow> syncs" where
  "reactAll st [] s = s"
| "reactAll st (i # is) s = reactAll st is (react st i s)"

definition promiseSettled :: "promise \<Rightarrow> settlement \<Rightarrow> syncs \<Rightarrow> syncs" where
  "promiseSettled p st s =
     reactAll st (map snd (filter (\<lambda>pi. fst pi = p) (reactions s)))
       (s\<lparr>reactions := filter (\<lambda>pi. fst pi \<noteq> p) (reactions s)\<rparr>)"

text \<open>
  \<open>s4\<close> is the four hexadecimal digits of \<open>Math.floor((1 + Math.random()) * 0x10000)\<close>;
  that integer is the parameter \<open>d\<close>, and \<open>rnd i\<close> is its value at the \<open>i\<close>-th call of
  \<open>s4\<close> within one \<open>generateRMIRequestUID\<close>.
\<close>

definition s4 :: "nat \<Rightarrow> string" where
  "s4 d = tl (toStringRadix 16 d)"

definition generateRMIRequestUID :: "(nat \<Rightarrow> nat) \<Rightarrow> string" where
  "generateRMIRequestUID rnd =
     s4 (rnd 0) @ s4 (rnd 1) @ ''-'' @ s4 (rnd 2) @ ''-'' @ s4 (rnd 3) @ ''-'' @
     s4 (rnd 4) @ ''-'' @ s4 (rnd 5) @ s4 (rnd 6) @ s4 (rnd 7)"

text \<open>
  \<open>onGetRemoteMethod\<close> runs at the property read \<open>io.remote.f\<close> and returns a function
  closed over \<open>property\<close> and \<open>id\<close>; \<open>remoteMethod_call\<close> is the body of that function,
  run at each call of it. The promise it returns is the next free one; its executor
  stores the promise's resolve and reject functions under \<open>id\<close>.
\<close>

record remoteMethod =
  property :: string
  id :: string

definition onGetRemoteMethod :: "(nat \<Rightarrow> nat) \<Rightarrow> string \<Rightarrow> remoteMethod" where
  "onGetRemoteMethod rnd p = \<lparr>property = p, id = generateRMIRequestUID rnd\<rparr>"

definition remoteMethod_call :: "remoteMethod \<Rightarrow> json list \<Rightarrow> syncs \<Rightarrow> promise \<times> syncs" where
  "remoteMethod_call m args s =
     (let s1 = sendRMICommand (property m) args (id m) s;
          p = nextPromise s1
      in (p, s1\<lparr>nextPromise := Suc p,
                rmiResultCallbacks :=
                  Map_set (rmiResultCallbacks s1) (Some (JString (id m))) p\<rparr>))"

definition handleRmiResultCommand :: "json \<Rightarrow> syncs \<Rightarrow> unit result" where
  "handleRmiResultCommand command s =
     (case Map_get (rmiResultCallbacks s) (field command ''id'') of
        None \<Rightarrow> (Inl TypeError, s)
      | Some callbacks \<Rightarrow>
          (let s1 = (if truthy (field command ''error'')
                     then emit (Reject callbacks (field command ''error'')) s
                     else emit (Resolve callbacks (field command ''result'')) s)
           in (Inr (), s1\<lparr>rmiResultCallbacks :=
                            Map_delete (rmiResultCallbacks s1) (field command ''id'')\<rparr>)))"

section \<open>Command router\<close>

definition handleCommand :: "json \<Rightarrow> syncs \<Rightarrow> unit result" where
  "handleCommand command s0 =
     (let s = (if debug (configs s0) then emit (ConsoleLog ''INPUT COMMAND:'' command) s0 else s0);
          t = field command ''type''
      in if t = Some (JString ''getSocketId'') then
           (let s1 = sendSocketId s in
            if truthy (socketId s1) then
              (case onOpenListener s1 of
                 Some f \<Rightarrow> (Inr (), emit (InvokeWithClient f) s1)
               | None \<Rightarrow> (Inr (), s1))
            else (Inr (), s1))
         else if t = Some (JString ''setSocketId'') then
           (let s1 = s\<lparr>socketId := field command ''socketId'', online := True\<rparr> in
            case onOpenListener s1 of
              Some f \<Rightarrow> (Inr (), emit (InvokeWithClient f) s1)
            | None \<Rightarrow> (Inr (), s1))
         else if t = Some (JString ''event'') then (Inr (), handleEvent command s)
         else if t = Some (JString ''sync'') then (Inr (), handleSync command s)
         else if t = Some (JString ''rmi'') then handleRMICommand command s
         else if t = Some (JString ''rmi-result'') then handleRmiResultCommand command s
         else (Inr (), s))"

text \<open>The listener of the transport's \<open>message\<close> event; \<open>data\<close> is the frame's text.\<close>

definition handleOnMessage :: "codec \<Rightarrow> string \<Rightarrow> syncs \<Rightarrow> unit result" where
  "handleOnMessage cd data s =
     (let parsedMessage = parseMessage cd data in
      if truthy (Some parsedMessage) then
        if truthy (field parsedMessage ''command'') \<and> truthy (field parsedMessage ''type'')
        then handleCommand parsedMessage s
        else (Inr (), invokeEach (onMessageListeners s) [Some parsedMessage] s)
      else (Inr (), s))"

section \<open>Environment and observations\<close>

text \<open>The transport finishes connecting: from now on it accepts frames.\<close>

definition transportOpened :: "syncs \<Rightarrow> syncs" where
  "transportOpened s = s\<lparr>socket := map_option (\<lambda>w. w\<lparr>accepting := True\<rparr>) (socket s)\<rparr>"

text \<open>Whether \<open>socket.send\<close> would return normally in this state.\<close>

definition canTransmit :: "syncs \<Rightarrow> bool" where
  "canTransmit s = (case socket s of None \<Rightarrow> False | Some w \<Rightarrow> accepting w)"

text \<open>The frames handed to the transport, and the calls of callbacks, among some effects.\<close>

fun transmitted :: "effect list \<Rightarrow> json list" where
  "transmitted [] = []"
| "transmitted (Transmit m # es) = m # transmitted es"
| "transmitted (e # es) = transmitted es"

fun invoked :: "effect list \<Rightarrow> (callback \<times> jsvalue list) list" where
  "invoked [] = []"
| "invoked (Invoke f args # es) = (f, args) # invoked es"
| "invoked (e # es) = invoked es"

text \<open>The effects a step from \<open>s\<close> to \<open>s'\<close> added.\<close>

definition added :: "syncs \<Rightarrow> syncs \<Rightarrow> effect list" where
  "added s s' = drop (length (effects s)) (effects s')"

text \<open>A frame whose text is not percent-encoded JSON: one of the two decoders throws.\<close>

definition notJSON :: "codec \<Rightarrow> string \<Rightarrow> bool" where
  "notJSON cd data =
     (case decodeURI cd data of None \<Rightarrow> True | Some text \<Rightarrow> JSON_parse cd text = None)"

text \<open>The \<open>sync\<close> command of a write of \<open>v\<close> to key \<open>k\<close> of the object named \<open>n\<close>, as sent.\<close>

definition syncFrame :: "jsvalue \<Rightarrow> string \<Rightarrow> json \<Rightarrow> json" where
  "syncFrame n k v =
     JObject (object [(''type'', Some (JString ''sync'')), (''name'', n),
                      (''scope'', Some (JString ''CLIENT'')), (''key'', Some (JString k)),
                      (''value'', Some v), (''command'', Some (JBool True))])"

text \<open>
  What sending the tagged command \<open>m\<close> adds in state \<open>s\<close>: the debug line, then the
  frame when the transport accepts it. What a change of \<open>values\<close> by \<open>who\<close> adds: the
  call of the object's change listener, when one is registered.
\<close>

definition outbound :: "syncs \<Rightarrow> json \<Rightarrow> effect list" where
  "outbound s m =
     (if debug (configs s) then [ConsoleLog ''OUTPUT COMMAND:'' m] else []) @
     (if canTransmit s then [Transmit m] else [])"

definition changed :: "sharedObject \<Rightarrow> json \<Rightarrow> string \<Rightarrow> effect list" where
  "changed obj values who =
     (case onChangeHandler obj of
        Some f \<Rightarrow> [Invoke f [Some (JObject [(''values'', values), (''by'', JString who)])]]
      | None \<Rightarrow> [])"

text \<open>
  The transport delivers the frames \<open>ds\<close> one after the other; an exception that leaves
  the message listener ends the handling of that frame only.
\<close>

fun deliver :: "codec \<Rightarrow> string list \<Rightarrow> syncs \<Rightarrow> syncs" where
  "deliver cd [] s = s"
| "deliver cd (d # ds) s = deliver cd ds (snd (handleOnMessage cd d s))"

text \<open>Two states agree on what the close listener reads.\<close>

definition sameLifecycle :: "syncs \<Rightarrow> syncs \<Rightarrow> bool" where
  "sameLifecycle s s' =
     (handledClose s' = handledClose s \<and> onCloseListener s' = onCloseListener s \<and>
      onDisconnectListener s' = onDisconnectListener s \<and> configs s' = configs s)"

text \<open>
  The states of a client: the constructor's, and what any public method, transport
  event, timer or settled promise makes of one.
\<close>

inductive reachable :: "syncs \<Rightarrow> bool" where
  constructed: "reachable (Syncs p c)"
| connected: "reachable s \<Longrightarrow> reachable (connect s)"
| disconnected: "reachable s \<Longrightarrow> reachable (snd (disconnect s))"
| opened: "reachable s \<Longrightarrow> reachable (transportOpened s)"
| message: "reachable s \<Longrightarrow> reachable (snd (handleOnMessage cd d s))"
| closed: "reachable s \<Longrightarrow> reachable (handleOnClose s)"
| timeout: "reachable s \<Longrightarrow> reachable (reconnectTimeout s)"
| settled: "reachable s \<Longrightarrow> reachable (promiseSettled q st s)"
| debugOn: "reachable s \<Longrightarrow> reachable (enableDebugMode s)"
| debugOff: "reachable s \<Longrightarrow> reachable (disableDebugMode s)"
| listenOpen: "reachable s \<Longrightarrow> reachable (onOpen f s)"
| listenClose: "reachable s \<Longrightarrow> reachable (onClose f s)"
| listenDisconnect: "reachable s \<Longrightarrow> reachable (onDisconnect f s)"
| listenMessage: "reachable s \<Longrightarrow> reachable (onMessage f s)"
| sent: "reachable s \<Longrightarrow> reachable (snd (send m s))"
| sentCommand: "reachable s \<Longrightarrow> reachable (snd (sendCommand m s))"
| subscribed: "reachable s \<Longrightarrow> reachable (subscribe e f s)"
| unSubscribed: "reachable s \<Longrightarrow> reachable (unSubscribe e f s)"
| published: "reachable s \<Longrightarrow> reachable (snd (publish e x s))"
| sharedView: "reachable s \<Longrightarrow> reachable (snd (shared n s))"
| groupView: "reachable s \<Longrightarrow> reachable (snd (groupShared g n s))"
| globalView: "reachable s \<Longrightarrow> reachable (snd (globalShared n s))"
| applied: "reachable s \<Longrightarrow> reachable (onApply r fs s)"
| written: "reachable s \<Longrightarrow> reachable (snd (onSet r k v s))"
| registered: "reachable s \<Longrightarrow> reachable (functions_set k fn s)"
| called: "reachable s \<Longrightarrow> reachable (snd (remoteMethod_call rm args s))"

text \<open>Every shared object is read-only exactly when its scope is not \<open>CLIENT\<close>.\<close>

definition scoped :: "syncs \<Rightarrow> bool" where
  "scoped s = (\<forall>r obj. objects s r = Some obj \<longrightarrow> readOnly obj = (type obj \<noteq> CLIENT))"

text \<open>
  Every object has a reference below \<open>nextRef\<close>, and every entry of the three tables
  refers to an object of the table's scope.
\<close>

definition tabled :: "syncs \<Rightarrow> bool" where
  "tabled s =
     ((\<forall>r obj. objects s r = Some obj \<longrightarrow> r < nextRef s) \<and>
      (\<forall>k r. globalSharedObjects s k = Some r \<longrightarrow>
         map_option type (objects s r) = Some GLOBAL) \<and>
      (\<forall>g m k r. groupSharedObjects s g = Some m \<longrightarrow> m k = Some r \<longrightarrow>
         map_option type (objects s r) = Some GROUP) \<and>
      (\<forall>k r. clientSharedObjects s k = Some r \<longrightarrow>
         map_option type (objects s r) = Some CLIENT))"

text \<open>Two states with the same objects and the same three tables.\<close>

definition sameObjects :: "syncs \<Rightarrow> syncs \<Rightarrow> bool" where
  "sameObjects s s' =
     (objects s' = objects s \<and> nextRef s' = nextRef s \<and>
      globalSharedObjects s' = globalSharedObjects s \<and>
      groupSharedObjects s' = groupSharedObjects s \<and>
      clientSharedObjects s' = clientSharedObjects s)"

subsection \<open>Concrete clients\<close>

definition defaults :: syncsConfig where
  "defaults = \<lparr>cfg_autoConnect = None, cfg_autoReconnect = None,
               cfg_reconnectDelay = None, cfg_debug = None\<rparr>"

definition manual :: syncsConfig where
  "manual = defaults\<lparr>cfg_autoConnect := Some False\<rparr>"

text \<open>A client whose transport has opened, before and after the server names it.\<close>

definition opened :: syncs where
  "opened = transportOpened (Syncs ''ws://host/syncs'' defaults)"

definition connected :: syncs where
  "connected =
     snd (handleCommand (JObject [(''command'', JBool True), (''type'', JString ''setSocketId''),
                                  (''socketId'', JString ''c1'')]) opened)"

text \<open>
  A stand-in codec that knows three JSON texts and rejects every other text; \<open>dq\<close> is
  the double quote.
\<close>

definition dq :: string where
  "dq = [CHR 0x22]"

definition table :: codec where
  "table =
     \<lparr>decodeURI = (\<lambda>t. if t = ''%'' then None else Some t),
      JSON_parse = map_of
        [(''true'', JBool True),
         (''[1]'', JArray [JNumber 1]),
         (''{'' @ dq @ ''command'' @ dq @ '':true,'' @ dq @ ''text'' @ dq @ '':'' @ dq @ ''hi'' @ dq @ ''}'',
          JObject [(''command'', JBool True), (''text'', JString ''hi'')])]\<rparr>"

text \<open>The callable read once from \<open>io.remote.getWeather\<close>, for some values of the
  random source.\<close>

definition weather :: remoteMethod where
  "weather = onGetRemoteMethod (\<lambda>i. 65536 + 4369 * i) ''getWeather''"

text \<open>The first \<open>sync\<close> command for the global object \<open>settings\<close>.\<close>

definition settingsSync :: json where
  "settingsSync =
     JObject [(''command'', JBool True), (''type'', JString ''sync''),
              (''scope'', JString ''GLOBAL''), (''name'', JString ''settings''),
              (''values'', JObject [(''bg'', JString ''blue''), (''v'', JNumber 2)])]"

text \<open>Two local functions, one that throws and one that returns promise \<open>0\<close>, and an
  inbound call of a function by its name.\<close>

definition boom :: "jsvalue list \<Rightarrow> outcome" where
  "boom args = Throws (Some (JString ''boom''))"

definition later :: "jsvalue list \<Rightarrow> outcome" where
  "later args = ReturnsPromise 0"

definition call :: "string \<Rightarrow> json" where
  "call f =
     JObject [(''command'', JBool True), (''type'', JString ''rmi''), (''name'', JString f),
              (''args'', JArray [JNumber 1]), (''id'', JString ''r1'')]"

section \<open>Basic facts\<close>

lemma invokeEach_effects:
  "invokeEach fs args s = s\<lparr>effects := effects s @ map (\<lambda>f. Invoke f args) fs\<rparr>"
  by (induction fs arbitrary: s) (simp_all add: emit_def)

lemma field_Some_truthy: "field m k = Some v \<Longrightarrow> truthy (Some m)"
  by (cases m) simp_all

lemma opened_eq:
  "opened =
     \<lparr>socketId = Some JNull, online = False,
      configs = \<lparr>autoConnect = True, autoReconnect = True, reconnectDelay = 1000, debug = False\<rparr>,
      onMessageListeners = [], handledClose = False, subscriptions = Map.empty,
      globalSharedObjects = Map.empty, groupSharedObjects = Map.empty,
      clientSharedObjects = Map.empty, rmiFunctions = Map.empty,
      rmiResultCallbacks = Map.empty, path = ''ws://host/syncs'',
      socket = Some \<lparr>url = ''ws://host/syncs'', accepting = True\<rparr>,
      onOpenListener = None, onCloseListener = None, onDisconnectListener = None,
      objects = Map.empty, nextRef = 0, reactions = [], nextPromise = 0,
      effects = [NewWebSocket ''ws://host/syncs'']\<rparr>"
  by (simp add: opened_def transportOpened_def Syncs_def defaults_def initializeConfigs_def
      connect_def emit_def)

lemma connected_eq:
  "connected = opened\<lparr>socketId := Some (JString ''c1''), online := True\<rparr>"
  by (simp add: connected_def handleCommand_def opened_eq Let_def)

lemma Map_get_set: "\<not> isReference k \<Longrightarrow> Map_get (Map_set m k v) k = Some v"
  by (simp add: Map_get_def Map_set_def)

lemma Map_set_set: "Map_set (Map_set m k v) k w = Map_set m k w"
  by (simp add: Map_set_def)

lemma list_of_Set_add:
  "list_of_dlist (Set_add x d) =
     (if x \<in> set (list_of_dlist d) then list_of_dlist d else list_of_dlist d @ [x])"
  by (simp add: Set_add_def distinct_remdups_id)

lemma Set_add_member: "x \<in> set (list_of_dlist (Set_add x d))"
  by (simp add: list_of_Set_add)

lemma Set_add_idem: "Set_add x (Set_add x d) = Set_add x d"
  by (simp add: Set_add_def [of x "Set_add x d"] Set_add_member)

lemma invoked_map_Invoke: "invoked (map (\<lambda>f. Invoke f a) fs) = map (\<lambda>f. (f, a)) fs"
  by (induction fs) simp_all

lemma filter_distinct_member:
  "distinct xs \<Longrightarrow> x \<in> set xs \<Longrightarrow>
   filter (\<lambda>c. fst c = x) (map (\<lambda>f. (f, a)) xs) = [(x, a)]"
  by (induction xs) (auto simp: filter_empty_conv)

lemma manual_eq:
  "Syncs p manual =
     \<lparr>socketId = Some JNull, online = False,
      configs = \<lparr>autoConnect = False, autoReconnect = True, reconnectDelay = 1000, debug = False\<rparr>,
      onMessageListeners = [], handledClose = False, subscriptions = Map.empty,
      globalSharedObjects = Map.empty, groupSharedObjects = Map.empty,
      clientSharedObjects = Map.empty, rmiFunctions = Map.empty,
      rmiResultCallbacks = Map.empty, path = p, socket = None,
      onOpenListener = None, onCloseListener = None, onDisconnectListener = None,
      objects = Map.empty, nextRef = 0, reactions = [], nextPromise = 0, effects = []\<rparr>"
  by (simp add: Syncs_def manual_def defaults_def initializeConfigs_def)

lemma weather_eq:
  "weather = \<lparr>property = ''getWeather'', id = ''00001111-2222-3333-4444-555566667777''\<rparr>"
  by (simp add: weather_def onGetRemoteMethod_def generateRMIRequestUID_def s4_def)

lemma Map_get_delete: "Map_get (Map_delete m k) k = None"
  by (simp add: Map_get_def Map_delete_def)

lemma transmitted_append: "transmitted (xs @ ys) = transmitted xs @ transmitted ys"
  by (induction xs rule: transmitted.induct) simp_all

lemma invoked_append: "invoked (xs @ ys) = invoked xs @ invoked ys"
  by (induction xs rule: invoked.induct) simp_all

lemma transmitted_outbound: "transmitted (outbound s m) = (if canTransmit s then [m] else [])"
  by (simp add: outbound_def)

lemma invoked_outbound: "invoked (outbound s m) = []"
  by (simp add: outbound_def)

lemma outbound_cong:
  "configs s' = configs s \<Longrightarrow> socket s' = socket s \<Longrightarrow> outbound s' m = outbound s m"
  by (simp add: outbound_def canTransmit_def)

text \<open>\<open>sendCommand\<close> in one equation: the \<open>catch\<close> turns every failure into \<open>false\<close>.\<close>

lemma sendCommand_eq:
  "sendCommand m s =
     (case setCommand m of
        Inl e \<Rightarrow> (Inr False, s)
      | Inr m' \<Rightarrow>
          (let s1 = (if debug (configs s) then emit (ConsoleLog ''OUTPUT COMMAND:'' m') s else s)
           in if canTransmit s then (Inr True, emit (Transmit m') s1) else (Inr False, s1)))"
  by (simp add: sendCommand_def sendCommand_try_def socket_send_def emit_def canTransmit_def
      Let_def split: sum.splits option.splits prod.splits)

lemma sendCommand_object:
  "sendCommand (JObject kvs) s =
     (Inr (canTransmit s),
      s\<lparr>effects := effects s @ outbound s (JObject (setProperty ''command'' (JBool True) kvs))\<rparr>)"
  by (simp add: sendCommand_eq emit_def outbound_def)

section \<open>Command router: frames that are not commands\<close>

text \<open>
  Claim C8. A frame whose text is not percent-encoded JSON makes \<open>parseMessage\<close> return
  \<open>false\<close>; the message listener then returns normally and leaves the client as it
  was: no plain-message listener is called and no command is handled.
\<close>

theorem invalid_frame_is_dropped:
  assumes "notJSON cd data"
  shows "parseMessage cd data = JBool False \<and> handleOnMessage cd data s = (Inr (), s)"
proof -
  from assms have "parseMessage cd data = JBool False"
    by (auto simp: notJSON_def parseMessage_def split: option.splits)
  then show ?thesis
    by (simp add: handleOnMessage_def)
qed

theorem invalid_frame_is_dropped_witness:
  "notJSON table ''hello'' \<and> parseMessage table ''hello'' = JBool False \<and>
   handleOnMessage table ''hello'' (onMessage 7 connected) = (Inr (), onMessage 7 connected)"
proof -
  have h: "notJSON table ''hello''"
    by (simp add: notJSON_def table_def dq_def)
  from invalid_frame_is_dropped [OF h, of "onMessage 7 connected"] h show ?thesis
    by simp
qed

text \<open>
  Claim C10. A decoded frame whose \<open>command\<close> field is \<open>true\<close> and whose \<open>type\<close> field is
  absent or falsy is not handled as a command: the listener returns normally, and all
  it does is call every plain-message listener, in registration order, with the
  decoded message itself.
\<close>

theorem untyped_command_is_plain_message:
  assumes "parseMessage cd data = m"
    and "field m ''command'' = Some (JBool True)"
    and "\<not> truthy (field m ''type'')"
  shows "handleOnMessage cd data s =
           (Inr (), s\<lparr>effects := effects s @
                                   map (\<lambda>l. Invoke l [Some m]) (onMessageListeners s)\<rparr>)"
  using assms field_Some_truthy [of m "''command''"]
  by (simp add: handleOnMessage_def invokeEach_effects)

theorem untyped_command_is_plain_message_witness:
  "added (onMessage 8 (onMessage 7 connected))
     (snd (handleOnMessage table
        (''{'' @ dq @ ''command'' @ dq @ '':true,'' @ dq @ ''text'' @ dq @ '':'' @ dq @ ''hi'' @ dq @ ''}'')
        (onMessage 8 (onMessage 7 connected)))) =
   [Invoke 7 [Some (JObject [(''command'', JBool True), (''text'', JString ''hi'')])],
    Invoke 8 [Some (JObject [(''command'', JBool True), (''text'', JString ''hi'')])]]"
proof -
  let ?m = "JObject [(''command'', JBool True), (''text'', JString ''hi'')]"
  let ?d = "''{'' @ dq @ ''command'' @ dq @ '':true,'' @ dq @ ''text'' @ dq @ '':'' @ dq @ ''hi'' @ dq @ ''}''"
  have p: "parseMessage table ?d = ?m"
    by (simp add: parseMessage_def table_def dq_def)
  have c: "field ?m ''command'' = Some (JBool True)" by simp
  have t: "\<not> truthy (field ?m ''type'')" by simp
  show ?thesis
    using untyped_command_is_plain_message [OF p c t, of "onMessage 8 (onMessage 7 connected)"]
    by (simp add: added_def onMessage_def connected_eq opened_eq)
qed

section \<open>Connection: intentional disconnect\<close>

text \<open>
  No inbound frame changes \<open>handledClose\<close>, the close and disconnect callbacks or the
  configuration: each handler is followed down to the assignments it makes.
\<close>

lemma sl_refl: "sameLifecycle s s" by (simp add: sameLifecycle_def)

lemma sl_trans: "sameLifecycle s s1 \<Longrightarrow> sameLifecycle s1 s2 \<Longrightarrow> sameLifecycle s s2"
  by (simp add: sameLifecycle_def)

lemma sl_sendCommand: "sameLifecycle s (snd (sendCommand m s))"
  by (simp add: sendCommand_eq emit_def Let_def sameLifecycle_def split: sum.splits)

lemma sl_emit: "sameLifecycle s (emit e s)"
  by (simp add: emit_def sameLifecycle_def)

lemma sl_invokeEach: "sameLifecycle s (invokeEach fs a s)"
  by (simp add: invokeEach_effects sameLifecycle_def)

lemma sl_setProperties: "sameLifecycle s (setProperties r v s)"
  by (simp add: setProperties_def emit_def Let_def sameLifecycle_def split: option.splits)

lemma sl_setGlobal: "sameLifecycle s (setGlobalSharedObject c s)"
  by (simp add: setGlobalSharedObject_def sl_setProperties allocate_def split: option.splits)
     (simp add: sameLifecycle_def)

lemma sl_setClient: "sameLifecycle s (setClientSharedObject c s)"
  by (simp add: setClientSharedObject_def sl_setProperties allocate_def split: option.splits)
     (simp add: sameLifecycle_def)

lemma sl_setGroup: "sameLifecycle s (setGroupSharedObject c s)"
proof -
  let ?groups = "(if \<not> Map_has (groupSharedObjects s) (field c ''group'')
                    then Map_set (groupSharedObjects s) (field c ''group'') Map.empty
                    else groupSharedObjects s)"
  let ?s0 = "s\<lparr>groupSharedObjects := ?groups\<rparr>"
  have a: "sameLifecycle s ?s0" by (simp add: sameLifecycle_def)
  have b: "sameLifecycle ?s0 (setGroupSharedObject c s)"
    unfolding setGroupSharedObject_def Let_def
    by (simp add: sl_setProperties sl_refl allocate_def split: option.splits)
       (simp add: sameLifecycle_def)
  from a b show ?thesis by (rule sl_trans)
qed

lemma sl_handleSync: "sameLifecycle s (handleSync c s)"
  by (simp add: handleSync_def sl_setGlobal sl_setGroup sl_setClient sl_refl)

lemma sl_handleEvent: "sameLifecycle s (handleEvent c s)"
  by (simp add: handleEvent_def sl_invokeEach sl_refl split: option.splits)

lemma sl_sendRmiResultCommand: "sameLifecycle s (sendRmiResultCommand a b c s)"
  by (simp add: sendRmiResultCommand_def sl_sendCommand)

lemma sl_handleRMICommand: "sameLifecycle s (snd (handleRMICommand c s))"
  by (simp add: handleRMICommand_def sl_sendRmiResultCommand sl_refl
        split: option.splits sum.splits outcome.splits)
     (simp add: sameLifecycle_def)

lemma sl_handleRmiResultCommand: "sameLifecycle s (snd (handleRmiResultCommand c s))"
  by (simp add: handleRmiResultCommand_def sameLifecycle_def emit_def split: option.splits)

lemma sl_sendSocketId: "sameLifecycle s (sendSocketId s)"
proof (cases "truthy (socketId s)")
  case True
  have "sameLifecycle (snd (sendCommand m s)) ((snd (sendCommand m s))\<lparr>online := True\<rparr>)" for m
    by (simp add: sameLifecycle_def)
  with True show ?thesis
    by (simp add: sendSocketId_def) (rule sl_trans [OF sl_sendCommand])
next
  case False
  then show ?thesis by (simp add: sendSocketId_def sl_sendCommand)
qed


lemma sl_emit_after: "sameLifecycle t x \<Longrightarrow> sameLifecycle t (emit e x)"
  by (simp add: sameLifecycle_def emit_def)

lemma sl_handleCommand: "sameLifecycle s (snd (handleCommand c s))"
proof -
  define t where "t = (if debug (configs s) then emit (ConsoleLog ''INPUT COMMAND:'' c) s else s)"
  have a: "sameLifecycle s t" by (simp add: t_def sl_emit sl_refl)
  have g: "sameLifecycle t (sendSocketId t)" by (rule sl_sendSocketId)
  have u: "sameLifecycle t (t\<lparr>socketId := field c ''socketId'', online := True\<rparr>)"
    by (simp add: sameLifecycle_def)
  have "sameLifecycle t (snd (handleCommand c s))"
    unfolding handleCommand_def Let_def t_def [symmetric]
    by (simp add: g u sl_emit_after sl_handleEvent sl_handleSync sl_handleRMICommand
        sl_handleRmiResultCommand sl_refl split: option.splits)
  with a show ?thesis by (rule sl_trans)
qed

lemma sl_handleOnMessage: "sameLifecycle s (snd (handleOnMessage cd d s))"
  by (simp add: handleOnMessage_def Let_def sl_handleCommand sl_invokeEach sl_refl)

lemma sl_deliver: "sameLifecycle s (deliver cd ds s)"
proof (induction ds arbitrary: s)
  case Nil
  show ?case by (simp add: sl_refl)
next
  case (Cons d ds)
  show ?case
    using sl_trans [OF sl_handleOnMessage Cons.IH] by simp
qed

lemma handleOnClose_handled:
  "handledClose s \<Longrightarrow>
   handleOnClose s =
     s\<lparr>online := False, handledClose := False,
       effects := effects s @
         (case onCloseListener s of Some f \<Rightarrow> [InvokeWithClient f] | None \<Rightarrow> [])\<rparr>"
  by (simp add: handleOnClose_def emit_def split: option.splits)

lemma close_right_after_disconnect:
  "handleOnClose (snd (disconnect s)) =
     (snd (disconnect s))\<lparr>online := False, handledClose := False,
        effects := effects (snd (disconnect s)) @
          (case onCloseListener s of Some f \<Rightarrow> [InvokeWithClient f] | None \<Rightarrow> [])\<rparr>"
  by (cases "socket s")
     (simp_all add: handleOnClose_def disconnect_def emit_def Let_def split: option.splits)

text \<open>
  Claim C7. After \<open>disconnect()\<close>, and whatever frames \<open>ds\<close> arrive before it, the
  transport's close event leaves the client offline with \<open>handledClose\<close> reset, and
  adds exactly one effect when a close callback is registered, its call, and none
  otherwise: the disconnect callback is not called and no reconnect timer is started.
\<close>

theorem close_after_disconnect:
  "handleOnClose (deliver cd ds (snd (disconnect s))) =
     (deliver cd ds (snd (disconnect s)))\<lparr>online := False, handledClose := False,
        effects := effects (deliver cd ds (snd (disconnect s))) @
          (case onCloseListener s of Some f \<Rightarrow> [InvokeWithClient f] | None \<Rightarrow> [])\<rparr>"
proof -
  let ?d = "snd (disconnect s)"
  have h: "handledClose ?d \<and> onCloseListener ?d = onCloseListener s"
    by (simp add: disconnect_def emit_def Let_def split: option.splits)
  have "sameLifecycle ?d (deliver cd ds ?d)" by (rule sl_deliver)
  with h have "handledClose (deliver cd ds ?d)"
    and "onCloseListener (deliver cd ds ?d) = onCloseListener s"
    by (simp_all add: sameLifecycle_def)
  then show ?thesis
    by (simp add: handleOnClose_handled)
qed

theorem close_after_disconnect_witness:
  "added (deliver table [''true'', ''hello'']
            (snd (disconnect (onMessage 7 (onDisconnect 2 (onClose 1 connected))))))
     (handleOnClose (deliver table [''true'', ''hello'']
            (snd (disconnect (onMessage 7 (onDisconnect 2 (onClose 1 connected))))))) =
     [InvokeWithClient 1] \<and>
   \<not> handledClose (handleOnClose (deliver table [''true'', ''hello'']
            (snd (disconnect (onMessage 7 (onDisconnect 2 (onClose 1 connected)))))))"
  using close_after_disconnect
    [of table "[''true'', ''hello'']" "onMessage 7 (onDisconnect 2 (onClose 1 connected))"]
  by (simp add: added_def onMessage_def onDisconnect_def onClose_def)

section \<open>Event layer: subscribing twice\<close>

lemma subscribe_eq:
  "subscribe event cb s =
     s\<lparr>subscriptions := Map_set (subscriptions s) (Some (JString event))
          (Set_add cb (case Map_get (subscriptions s) (Some (JString event)) of
                         None \<Rightarrow> Dlist.empty | Some d \<Rightarrow> d))\<rparr>"
  by (simp add: subscribe_def Let_def Map_has_def Map_get_set Map_set_set split: option.splits)

lemma subscribe_idem: "subscribe event cb (subscribe event cb s) = subscribe event cb s"
  by (simp add: subscribe_eq Map_get_set Map_set_set Set_add_idem)

text \<open>
  Claim C9, as amended. Subscribing the same callback twice to an event is the same as
  subscribing it once; and when the event's name is not the empty string, an inbound
  event command for that event calls the callback exactly once, with the command's
  \<open>data\<close>.
\<close>

theorem subscribe_twice_invoked_once:
  assumes "event \<noteq> []"
    and "field command ''event'' = Some (JString event)"
  shows "subscribe event cb (subscribe event cb s) = subscribe event cb s \<and>
         filter (\<lambda>c. fst c = cb)
           (invoked (added (subscribe event cb (subscribe event cb s))
              (handleEvent command (subscribe event cb (subscribe event cb s))))) =
         [(cb, [field command ''data''])]"
proof -
  let ?d = "Set_add cb (case Map_get (subscriptions s) (Some (JString event)) of
                          None \<Rightarrow> Dlist.empty | Some d \<Rightarrow> d)"
  let ?s = "subscribe event cb s"
  have g: "Map_get (subscriptions ?s) (field command ''event'') = Some ?d"
    by (simp add: assms(2) subscribe_eq Map_get_set)
  have "added ?s (handleEvent command ?s) =
          map (\<lambda>f. Invoke f [field command ''data'']) (list_of_dlist ?d)"
    using assms g by (simp add: handleEvent_def added_def invokeEach_effects)
  then have "filter (\<lambda>c. fst c = cb) (invoked (added ?s (handleEvent command ?s))) =
          [(cb, [field command ''data''])]"
    by (simp add: invoked_map_Invoke filter_distinct_member Set_add_member)
  then show ?thesis
    by (simp add: subscribe_idem)
qed

theorem subscribe_twice_invoked_once_witness:
  "filter (\<lambda>c. fst c = 5)
     (invoked (added (subscribe ''e'' 5 (subscribe ''e'' 5 (subscribe ''e'' 4 connected)))
        (handleEvent (JObject [(''command'', JBool True), (''type'', JString ''event''),
                               (''event'', JString ''e''), (''data'', JObject [(''x'', JNumber 1)])])
           (subscribe ''e'' 5 (subscribe ''e'' 5 (subscribe ''e'' 4 connected)))))) =
   [(5, [Some (JObject [(''x'', JNumber 1)])])]"
proof -
  let ?c = "JObject [(''command'', JBool True), (''type'', JString ''event''),
                     (''event'', JString ''e''), (''data'', JObject [(''x'', JNumber 1)])]"
  have n: "''e'' \<noteq> []" by simp
  have f: "field ?c ''event'' = Some (JString ''e'')" by simp
  show ?thesis
    using subscribe_twice_invoked_once [OF n f, THEN conjunct2, of 5 "subscribe ''e'' 4 connected"]
    by simp
qed

text \<open>
  The claim as stated fails for the event named by the empty string: \<open>handleEvent\<close>
  tests \<open>command.event\<close> for truth before it looks the event up, so a callback
  subscribed (twice) under \<open>''''\<close> is not called at all.
\<close>

theorem empty_event_name_never_invoked:
  "map_option list_of_dlist
     (Map_get (subscriptions (subscribe [] 5 (subscribe [] 5 connected))) (Some (JString []))) =
     Some [5] \<and>
   handleCommand (JObject [(''command'', JBool True), (''type'', JString ''event''),
                           (''event'', JString []), (''data'', JObject [(''x'', JNumber 1)])])
     (subscribe [] 5 (subscribe [] 5 connected)) =
     (Inr (), subscribe [] 5 (subscribe [] 5 connected))"
  by (simp add: handleCommand_def handleEvent_def subscribe_eq list_of_Set_add connected_eq
      opened_eq Map_get_def Map_set_def)

section \<open>Sending: \<open>send\<close> and \<open>sendCommand\<close>\<close>

text \<open>
  Claim C4, as amended. \<open>send\<close> transmits only while the client is online and returns
  whether the message was sent: offline it returns \<open>false\<close> and does nothing; online,
  once the transport has taken the message, it returns \<open>true\<close>. \<open>sendCommand\<close> does not
  look at \<open>online\<close>: it never throws, it returns whether the transport accepted the
  frame, and an object message is transmitted with \<open>command: true\<close> added exactly when
  the transport accepts it.
\<close>

theorem send_and_sendCommand:
  "(\<not> online s \<longrightarrow> send m s = (Inr False, s)) \<and>
   (online s \<and> canTransmit s \<longrightarrow> send m s = (Inr True, emit (Transmit m) s)) \<and>
   (\<forall>e. fst (sendCommand m s) \<noteq> Inl e) \<and>
   fst (sendCommand (JObject kvs) s) = Inr (canTransmit s) \<and>
   transmitted (added s (snd (sendCommand (JObject kvs) s))) =
     (if canTransmit s then [JObject (setProperty ''command'' (JBool True) kvs)] else [])"
proof -
  have a: "\<not> online s \<longrightarrow> send m s = (Inr False, s)"
    by (simp add: send_def)
  have b: "online s \<and> canTransmit s \<longrightarrow> send m s = (Inr True, emit (Transmit m) s)"
    by (auto simp: send_def socket_send_def canTransmit_def split: option.splits)
  have c: "\<forall>e. fst (sendCommand m s) \<noteq> Inl e"
    by (simp add: sendCommand_eq Let_def split: sum.splits)
  have d: "fst (sendCommand (JObject kvs) s) = Inr (canTransmit s)"
    by (simp add: sendCommand_object)
  have e: "transmitted (added s (snd (sendCommand (JObject kvs) s))) =
     (if canTransmit s then [JObject (setProperty ''command'' (JBool True) kvs)] else [])"
    by (simp add: sendCommand_object added_def transmitted_outbound)
  from a b c d e show ?thesis by blast
qed

theorem send_and_sendCommand_witness:
  "online connected \<and> canTransmit connected \<and>
   send (JObject [(''text'', JString ''hi'')]) connected =
     (Inr True, emit (Transmit (JObject [(''text'', JString ''hi'')])) connected) \<and>
   \<not> online (Syncs ''ws://host/syncs'' manual) \<and>
   send (JObject [(''text'', JString ''hi'')]) (Syncs ''ws://host/syncs'' manual) =
     (Inr False, Syncs ''ws://host/syncs'' manual) \<and>
   fst (sendCommand (JObject [(''type'', JString ''event'')]) (Syncs ''ws://host/syncs'' manual)) =
     Inr False"
  using send_and_sendCommand [of connected "JObject [(''text'', JString ''hi'')]" "[]"]
    send_and_sendCommand [of "Syncs ''ws://host/syncs'' manual" "JObject [(''text'', JString ''hi'')]"
      "[(''type'', JString ''event'')]"]
  by (simp add: connected_eq opened_eq canTransmit_def manual_eq)

text \<open>
  The claim as stated fails: while the client is not online, \<open>sendCommand\<close> transmits.
  This is the handshake: the reply to \<open>getSocketId\<close> is sent before the client is
  online.
\<close>

theorem sendCommand_transmits_offline:
  "\<not> online opened \<and>
   sendCommand (JObject [(''type'', JString ''reportSocketId''), (''socketId'', JNull)]) opened =
     (Inr True,
      emit (Transmit (JObject [(''type'', JString ''reportSocketId''), (''socketId'', JNull),
                               (''command'', JBool True)])) opened)"
  by (simp add: sendCommand_eq canTransmit_def opened_eq Let_def)

section \<open>RMI layer: results of outbound calls\<close>

lemma remoteMethod_call_eq:
  "remoteMethod_call m args s =
     (nextPromise s,
      (snd (sendCommand (JObject [(''type'', JString ''rmi''), (''id'', JString (id m)),
                                  (''name'', JString (property m)), (''args'', JArray args)]) s))
        \<lparr>nextPromise := Suc (nextPromise s),
          rmiResultCallbacks :=
            Map_set (rmiResultCallbacks s) (Some (JString (id m))) (nextPromise s)\<rparr>)"
  by (simp add: remoteMethod_call_def sendRMICommand_def sendCommand_object Let_def)

text \<open>
  Claim C5, as amended. An \<open>rmi-result\<close> whose \<open>id\<close> has a pending call returns normally;
  it calls the promise's reject function with the \<open>error\<close> field when that field is
  truthy and its resolve function with the \<open>result\<close> field otherwise, once, and removes
  the pending entry. A later \<open>rmi-result\<close> with the same \<open>id\<close> finds no entry and
  resolves or rejects nothing: it leaves the client, and with it the record of the
  calls made, as it was.
\<close>

theorem rmi_result_settles_once:
  assumes "Map_get (rmiResultCallbacks s) (field command ''id'') = Some p"
    and "field again ''id'' = field command ''id''"
  shows "handleRmiResultCommand command s =
           (Inr (), s\<lparr>effects := effects s @
                        [if truthy (field command ''error'')
                         then Reject p (field command ''error'')
                         else Resolve p (field command ''result'')],
                      rmiResultCallbacks :=
                        Map_delete (rmiResultCallbacks s) (field command ''id'')\<rparr>) \<and>
         Map_get (rmiResultCallbacks (snd (handleRmiResultCommand command s)))
           (field command ''id'') = None \<and>
         snd (handleRmiResultCommand again (snd (handleRmiResultCommand command s))) =
           snd (handleRmiResultCommand command s)"
proof -
  let ?s' = "s\<lparr>effects := effects s @
                        [if truthy (field command ''error'')
                         then Reject p (field command ''error'')
                         else Resolve p (field command ''result'')],
                      rmiResultCallbacks :=
                        Map_delete (rmiResultCallbacks s) (field command ''id'')\<rparr>"
  have a: "handleRmiResultCommand command s = (Inr (), ?s')"
    using assms(1) by (simp add: handleRmiResultCommand_def emit_def)
  have b: "Map_get (rmiResultCallbacks ?s') (field again ''id'') = None"
    by (simp add: assms(2) Map_get_delete)
  have c: "snd (handleRmiResultCommand again ?s') = ?s'"
    using b by (simp add: handleRmiResultCommand_def)
  from a b c assms(2) show ?thesis by simp
qed

theorem rmi_result_settles_once_witness:
  "Map_get (rmiResultCallbacks (snd (remoteMethod_call weather [JString ''Paris''] connected)))
     (Some (JString (id weather))) = Some 0 \<and>
   added (snd (remoteMethod_call weather [JString ''Paris''] connected))
     (snd (handleRmiResultCommand
        (JObject [(''command'', JBool True), (''type'', JString ''rmi-result''),
                  (''id'', JString (id weather)), (''result'', JString ''sunny'')])
        (snd (remoteMethod_call weather [JString ''Paris''] connected)))) =
     [Resolve 0 (Some (JString ''sunny''))] \<and>
   snd (handleRmiResultCommand
     (JObject [(''command'', JBool True), (''type'', JString ''rmi-result''),
               (''id'', JString (id weather)), (''error'', JString ''function error'')])
     (snd (handleRmiResultCommand
        (JObject [(''command'', JBool True), (''type'', JString ''rmi-result''),
                  (''id'', JString (id weather)), (''result'', JString ''sunny'')])
        (snd (remoteMethod_call weather [JString ''Paris''] connected))))) =
   snd (handleRmiResultCommand
        (JObject [(''command'', JBool True), (''type'', JString ''rmi-result''),
                  (''id'', JString (id weather)), (''result'', JString ''sunny'')])
        (snd (remoteMethod_call weather [JString ''Paris''] connected)))"
proof -
  let ?c = "JObject [(''command'', JBool True), (''type'', JString ''rmi-result''),
                  (''id'', JString (id weather)), (''result'', JString ''sunny'')]"
  let ?a = "JObject [(''command'', JBool True), (''type'', JString ''rmi-result''),
               (''id'', JString (id weather)), (''error'', JString ''function error'')]"
  let ?s = "snd (remoteMethod_call weather [JString ''Paris''] connected)"
  have p: "Map_get (rmiResultCallbacks ?s) (field ?c ''id'') = Some 0"
    by (simp add: remoteMethod_call_eq Map_get_set connected_eq opened_eq)
  have i: "field ?a ''id'' = field ?c ''id''" by simp
  have q: "Map_get (rmiResultCallbacks ?s) (Some (JString (id weather))) = Some 0"
    using p by simp
  note t = rmi_result_settles_once [OF p i]
  have r: "added ?s (snd (handleRmiResultCommand ?c ?s)) = [Resolve 0 (Some (JString ''sunny''))]"
    unfolding t [THEN conjunct1] by (simp add: added_def)
  from q r t show ?thesis by blast
qed

text \<open>
  The claim as stated fails where it says that a present \<open>error\<close> field rejects: the
  test is \<open>if (command.error)\<close>, so a result whose \<open>error\<close> field is present but not
  truthy, here the empty string, resolves the promise.
\<close>

theorem error_field_present_but_resolved:
  "field (JObject [(''command'', JBool True), (''type'', JString ''rmi-result''),
                   (''id'', JString (id weather)), (''result'', JString ''sunny''),
                   (''error'', JString [])]) ''error'' = Some (JString []) \<and>
   added (snd (remoteMethod_call weather [JString ''Paris''] connected))
     (snd (handleCommand
        (JObject [(''command'', JBool True), (''type'', JString ''rmi-result''),
                  (''id'', JString (id weather)), (''result'', JString ''sunny''),
                  (''error'', JString [])])
        (snd (remoteMethod_call weather [JString ''Paris''] connected)))) =
     [Resolve 0 (Some (JString ''sunny''))]"
  by (simp add: remoteMethod_call_eq sendCommand_object handleCommand_def
      handleRmiResultCommand_def added_def emit_def connected_eq opened_eq Map_get_def
      Map_set_def Let_def)

section \<open>Shared objects: scope and access\<close>

text \<open>
  Assignments to the data leave the object's name, scope, access flag and listener as
  they are; a key other than \<open>__proto__\<close> becomes an own property.
\<close>

lemma assign_keeps:
  "name (assign k v obj) = name obj" "type (assign k v obj) = type obj"
  "readOnly (assign k v obj) = readOnly obj" "onChangeHandler (assign k v obj) = onChangeHandler obj"
  by (simp_all add: assign_def split: json.splits)

lemma assignAll_keeps:
  "name (assignAll kvs obj) = name obj \<and> type (assignAll kvs obj) = type obj \<and>
   readOnly (assignAll kvs obj) = readOnly obj \<and>
   onChangeHandler (assignAll kvs obj) = onChangeHandler obj"
  by (induction kvs obj rule: assignAll.induct) (simp_all add: assign_keeps)

lemma assign_key:
  "k \<noteq> ''__proto__'' \<Longrightarrow> assign k v obj = obj\<lparr>rawData := (rawData obj)(k \<mapsto> v)\<rparr>"
  by (simp add: assign_def)

lemma lookup_own: "rawData obj k = Some v \<Longrightarrow> lookup obj k = Some v"
  by (simp add: lookup_def)


text \<open>
  In every state that the operations of the client can reach, an object is read-only
  exactly when its scope is \<open>GLOBAL\<close> or \<open>GROUP\<close>: each operation keeps this.
\<close>

lemma scoped_objects: "objects s' = objects s \<Longrightarrow> scoped s \<Longrightarrow> scoped s'"
  by (simp add: scoped_def)

lemma scoped_update:
  "scoped s \<Longrightarrow> readOnly obj = (type obj \<noteq> CLIENT) \<Longrightarrow>
   objects s' = (objects s)(r \<mapsto> obj) \<Longrightarrow> scoped s'"
  by (simp add: scoped_def)

lemma scoped_object: "scoped s \<Longrightarrow> objects s r = Some obj \<Longrightarrow> readOnly obj = (type obj \<noteq> CLIENT)"
  by (simp add: scoped_def)

lemma objects_sendCommand: "objects (snd (sendCommand m s)) = objects s"
  by (simp add: sendCommand_eq emit_def Let_def split: sum.splits)

lemma sc_sendCommand: "scoped s \<Longrightarrow> scoped (snd (sendCommand m s))"
  by (rule scoped_objects [OF objects_sendCommand])

lemma sc_emit: "scoped s \<Longrightarrow> scoped (emit e s)"
  by (rule scoped_objects) (simp add: emit_def)

lemma sc_invokeEach: "scoped s \<Longrightarrow> scoped (invokeEach fs a s)"
  by (rule scoped_objects) (simp add: invokeEach_effects)

lemma sc_allocate:
  "scoped s \<Longrightarrow> readOnly obj = (type obj \<noteq> CLIENT) \<Longrightarrow> scoped (snd (allocate obj s))"
  by (rule scoped_update [where r = "nextRef s"]) (simp_all add: allocate_def)

lemma level_scoped:
  "readOnly (globalLevel n d) = (type (globalLevel n d) \<noteq> CLIENT)"
  "readOnly (groupLevel n d) = (type (groupLevel n d) \<noteq> CLIENT)"
  "readOnly (clientLevel n d) = (type (clientLevel n d) \<noteq> CLIENT)"
  by (simp_all add: globalLevel_def groupLevel_def clientLevel_def)

lemma sc_setProperties: "scoped s \<Longrightarrow> scoped (setProperties r v s)"
proof (cases "objects s r")
  case None
  then show "scoped s \<Longrightarrow> scoped (setProperties r v s)" by (simp add: setProperties_def)
next
  case (Some obj)
  assume sc: "scoped s"
  let ?obj = "assignAll (forIn v) obj"
  have o: "readOnly ?obj = (type ?obj \<noteq> CLIENT)"
    using scoped_object [OF sc Some] by (simp add: assignAll_keeps)
  have "objects (setProperties r v s) = (objects s)(r \<mapsto> ?obj)"
    using Some by (simp add: setProperties_def Let_def emit_def split: option.splits)
  with sc o show "scoped (setProperties r v s)" by (rule scoped_update)
qed

lemma sc_field: "scoped s \<Longrightarrow> scoped (s\<lparr>globalSharedObjects := x\<rparr>)"
  "scoped s \<Longrightarrow> scoped (s\<lparr>groupSharedObjects := y\<rparr>)"
  "scoped s \<Longrightarrow> scoped (s\<lparr>clientSharedObjects := x\<rparr>)"
  by (simp_all add: scoped_def)

lemma sc_setGlobal: "scoped s \<Longrightarrow> scoped (setGlobalSharedObject c s)"
proof (cases "Map_get (globalSharedObjects s) (field c ''name'')")
  case None
  then show "scoped s \<Longrightarrow> scoped (setGlobalSharedObject c s)"
    by (simp add: setGlobalSharedObject_def allocate_def globalLevel_def scoped_def)
next
  case (Some r)
  then show "scoped s \<Longrightarrow> scoped (setGlobalSharedObject c s)"
    by (simp add: setGlobalSharedObject_def sc_setProperties)
qed

lemma sc_setClient: "scoped s \<Longrightarrow> scoped (setClientSharedObject c s)"
proof (cases "Map_get (clientSharedObjects s) (field c ''name'')")
  case None
  then show "scoped s \<Longrightarrow> scoped (setClientSharedObject c s)"
    by (simp add: setClientSharedObject_def allocate_def clientLevel_def scoped_def)
next
  case (Some r)
  then show "scoped s \<Longrightarrow> scoped (setClientSharedObject c s)"
    by (simp add: setClientSharedObject_def sc_setProperties)
qed

lemma sc_setGroup: "scoped s \<Longrightarrow> scoped (setGroupSharedObject c s)"
proof -
  assume sc: "scoped s"
  define groups where "groups = (if \<not> Map_has (groupSharedObjects s) (field c ''group'')
                    then Map_set (groupSharedObjects s) (field c ''group'') Map.empty
                    else groupSharedObjects s)"
  define s0 where "s0 = s\<lparr>groupSharedObjects := groups\<rparr>"
  have s0: "scoped s0" unfolding s0_def using sc by (rule sc_field(2))
  have al: "scoped (snd (allocate (groupLevel n d) s0))" for n d
    using s0 level_scoped(2) by (rule sc_allocate)
  have al2: "scoped (snd (allocate (groupLevel n d) s0)\<lparr>groupSharedObjects := y\<rparr>)" for n d y
    using al by (rule sc_field(2))
  have sp: "scoped (setProperties r v s0)" for r v
    using s0 by (rule sc_setProperties)
  show "scoped (setGroupSharedObject c s)"
    unfolding setGroupSharedObject_def Let_def groups_def [symmetric] s0_def [symmetric]
    by (simp add: al al2 sp split_beta split: option.splits)
qed

lemma sc_handleSync: "scoped s \<Longrightarrow> scoped (handleSync c s)"
  by (simp add: handleSync_def sc_setGlobal sc_setGroup sc_setClient)

lemma sc_handleEvent: "scoped s \<Longrightarrow> scoped (handleEvent c s)"
  by (simp add: handleEvent_def sc_invokeEach split: option.splits)

lemma sc_sendRmiResultCommand: "scoped s \<Longrightarrow> scoped (sendRmiResultCommand a b c s)"
  by (simp add: sendRmiResultCommand_def sc_sendCommand)

lemma sc_reactions: "scoped s \<Longrightarrow> scoped (s\<lparr>reactions := x\<rparr>)"
  by (simp add: scoped_def)

lemma sc_handleRMICommand: "scoped s \<Longrightarrow> scoped (snd (handleRMICommand c s))"
  by (simp add: handleRMICommand_def sc_sendRmiResultCommand sc_reactions
        split: option.splits sum.splits outcome.splits)

lemma sc_handleRmiResultCommand: "scoped s \<Longrightarrow> scoped (snd (handleRmiResultCommand c s))"
  by (rule scoped_objects)
     (simp_all add: handleRmiResultCommand_def emit_def split: option.splits)

lemma sc_sendSocketId: "scoped s \<Longrightarrow> scoped (sendSocketId s)"
  by (rule scoped_objects) (simp_all add: sendSocketId_def objects_sendCommand)

lemma sc_handleCommand: "scoped s \<Longrightarrow> scoped (snd (handleCommand c s))"
proof -
  assume sc: "scoped s"
  define t where "t = (if debug (configs s) then emit (ConsoleLog ''INPUT COMMAND:'' c) s else s)"
  have t: "scoped t" using sc by (simp add: t_def sc_emit)
  have g: "scoped (sendSocketId t)" using t by (rule sc_sendSocketId)
  have u: "scoped (t\<lparr>socketId := field c ''socketId'', online := True\<rparr>)"
    using t by (simp add: scoped_def)
  show "scoped (snd (handleCommand c s))"
    unfolding handleCommand_def Let_def t_def [symmetric]
    using t
    by (simp add: g u sc_emit sc_handleEvent sc_handleSync sc_handleRMICommand
        sc_handleRmiResultCommand split: option.splits)
qed

lemma sc_handleOnMessage: "scoped s \<Longrightarrow> scoped (snd (handleOnMessage cd d s))"
  by (simp add: handleOnMessage_def Let_def sc_handleCommand sc_invokeEach)


lemma sc_connect: "scoped s \<Longrightarrow> scoped (connect s)"
  by (rule scoped_objects) (simp_all add: connect_def emit_def Let_def)

lemma sc_Syncs: "scoped (Syncs p c)"
proof -
  have "scoped s" if "objects s = Map.empty" for s
    using that by (simp add: scoped_def)
  then show "scoped (Syncs p c)"
    by (simp add: Syncs_def Let_def sc_connect)
qed

lemma sc_disconnect: "scoped s \<Longrightarrow> scoped (snd (disconnect s))"
  by (rule scoped_objects) (simp_all add: disconnect_def emit_def Let_def split: option.splits)

lemma sc_transportOpened: "scoped s \<Longrightarrow> scoped (transportOpened s)"
  by (rule scoped_objects) (simp_all add: transportOpened_def split: option.splits)

lemma sc_handleOnClose: "scoped s \<Longrightarrow> scoped (handleOnClose s)"
  by (rule scoped_objects)
     (simp_all add: handleOnClose_def emit_def Let_def split: option.splits)

lemma sc_reconnectTimeout: "scoped s \<Longrightarrow> scoped (reconnectTimeout s)"
  by (simp add: reconnectTimeout_def sc_connect)

lemma sc_react: "scoped s \<Longrightarrow> scoped (react st i s)"
  by (cases st) (simp_all add: sc_sendRmiResultCommand)

lemma sc_reactAll: "scoped s \<Longrightarrow> scoped (reactAll st is s)"
  by (induction "is" arbitrary: s) (simp_all add: sc_react)

lemma sc_promiseSettled: "scoped s \<Longrightarrow> scoped (promiseSettled q st s)"
  by (simp add: promiseSettled_def sc_reactAll sc_reactions)

lemma sc_send: "scoped s \<Longrightarrow> scoped (snd (send m s))"
  by (rule scoped_objects) (simp_all add: send_def socket_send_def emit_def split: option.splits)

lemma sc_publish: "scoped s \<Longrightarrow> scoped (snd (publish e x s))"
  by (simp add: publish_def sc_sendCommand)

lemma sc_shared: "scoped s \<Longrightarrow> scoped (snd (shared n s))"
  by (simp add: shared_def allocate_def clientLevel_def scoped_def split: option.splits)

lemma sc_globalShared: "scoped s \<Longrightarrow> scoped (snd (globalShared n s))"
  by (simp add: globalShared_def allocate_def globalLevel_def scoped_def split: option.splits)

lemma sc_groupShared: "scoped s \<Longrightarrow> scoped (snd (groupShared g n s))"
  by (simp add: groupShared_def allocate_def groupLevel_def scoped_def Let_def split: option.splits)

lemma sc_onApply: "scoped s \<Longrightarrow> scoped (onApply r fs s)"
  by (simp add: onApply_def scoped_def split: option.splits list.splits)

lemma sc_sendSyncCommand: "scoped s \<Longrightarrow> scoped (sendSyncCommand r k s)"
  by (simp add: sendSyncCommand_def sc_sendCommand split: option.splits)

lemma sc_onSet: "scoped s \<Longrightarrow> scoped (snd (onSet r k v s))"
proof (cases "objects s r")
  case None
  then show "scoped s \<Longrightarrow> scoped (snd (onSet r k v s))" by (simp add: onSet_def)
next
  case (Some obj)
  assume sc: "scoped s"
  let ?obj = "assign k v obj"
  let ?s1 = "s\<lparr>objects := (objects s)(r \<mapsto> ?obj)\<rparr>"
  have o: "readOnly ?obj = (type ?obj \<noteq> CLIENT)"
    using scoped_object [OF sc Some] by (simp add: assign_keeps)
  have s1: "scoped ?s1" using sc o by (rule scoped_update) simp
  have s2: "scoped (emit e ?s1)" for e using s1 by (rule sc_emit)
  show "scoped (snd (onSet r k v s))"
    using Some sc s1 s2 by (simp add: onSet_def Let_def sc_sendSyncCommand split: option.splits)
qed

lemma sc_remoteMethod_call: "scoped s \<Longrightarrow> scoped (snd (remoteMethod_call rm args s))"
  by (rule scoped_objects) (simp_all add: remoteMethod_call_def sendRMICommand_def objects_sendCommand Let_def)

lemma reachable_scoped: "reachable s \<Longrightarrow> scoped s"
proof (induction rule: reachable.induct)
  case (constructed p c) show ?case by (rule sc_Syncs)
next
  case (connected s) then show ?case by (simp add: sc_connect)
next
  case (disconnected s) then show ?case by (simp add: sc_disconnect)
next
  case (opened s) then show ?case by (simp add: sc_transportOpened)
next
  case (message s cd d) then show ?case by (simp add: sc_handleOnMessage)
next
  case (closed s) then show ?case by (simp add: sc_handleOnClose)
next
  case (timeout s) then show ?case by (simp add: sc_reconnectTimeout)
next
  case (settled s q st) then show ?case by (simp add: sc_promiseSettled)
next
  case (debugOn s) then show ?case by (simp add: enableDebugMode_def scoped_def)
next
  case (debugOff s) then show ?case by (simp add: disableDebugMode_def scoped_def)
next
  case (listenOpen s f) then show ?case by (simp add: onOpen_def scoped_def)
next
  case (listenClose s f) then show ?case by (simp add: onClose_def scoped_def)
next
  case (listenDisconnect s f) then show ?case by (simp add: onDisconnect_def scoped_def)
next
  case (listenMessage s f) then show ?case by (simp add: onMessage_def scoped_def)
next
  case (sent s m) then show ?case by (simp add: sc_send)
next
  case (sentCommand s m) then show ?case by (simp add: sc_sendCommand)
next
  case (subscribed s e f) then show ?case by (simp add: subscribe_eq scoped_def)
next
  case (unSubscribed s e f) then show ?case by (simp add: unSubscribe_def scoped_def Let_def split: option.splits)
next
  case (published s e x) then show ?case by (simp add: sc_publish)
next
  case (sharedView s n) then show ?case by (simp add: sc_shared)
next
  case (groupView s g n) then show ?case by (simp add: sc_groupShared)
next
  case (globalView s n) then show ?case by (simp add: sc_globalShared)
next
  case (applied s r fs) then show ?case by (simp add: sc_onApply)
next
  case (written s r k v) then show ?case by (simp add: sc_onSet)
next
  case (registered s k fn) then show ?case by (simp add: functions_set_def scoped_def)
next
  case (called s rm args) then show ?case by (simp add: sc_remoteMethod_call)
qed

text \<open>
  In every such state the tables are sound as well: none of the operations removes an
  entry or changes an object's scope, and a new object gets a fresh reference.
\<close>

lemma tabled_same: "sameObjects s s' \<Longrightarrow> tabled s \<Longrightarrow> tabled s'"
  by (simp add: tabled_def sameObjects_def)

lemma so_refl: "sameObjects s s" by (simp add: sameObjects_def)

lemma so_trans: "sameObjects s s1 \<Longrightarrow> sameObjects s1 s2 \<Longrightarrow> sameObjects s s2"
  by (simp add: sameObjects_def)

lemma so_sendCommand: "sameObjects s (snd (sendCommand m s))"
  by (simp add: sendCommand_eq emit_def Let_def sameObjects_def split: sum.splits)

lemma so_emit: "sameObjects s (emit e s)"
  by (simp add: emit_def sameObjects_def)

lemma so_invokeEach: "sameObjects s (invokeEach fs a s)"
  by (simp add: invokeEach_effects sameObjects_def)

lemma tabled_update:
  assumes "tabled s" and "objects s r = Some obj" and "type obj' = type obj"
    and "objects s' = (objects s)(r \<mapsto> obj')" and "nextRef s' = nextRef s"
    and "globalSharedObjects s' = globalSharedObjects s"
    and "groupSharedObjects s' = groupSharedObjects s"
    and "clientSharedObjects s' = clientSharedObjects s"
  shows "tabled s'"
proof -
  have t: "map_option type (objects s' x) = map_option type (objects s x)" for x
    using assms(2,3,4) by simp
  have d: "objects s' x = Some o' \<Longrightarrow> x < nextRef s'" for x o'
    using assms(1,2,4,5) by (cases "x = r") (simp_all add: tabled_def)
  show "tabled s'"
    unfolding tabled_def t assms(6,7,8)
    using assms(1) d by (simp add: tabled_def)
qed


lemma tabled_alloc:
  assumes t: "tabled s"
    and o: "objects s' = (objects s)(nextRef s \<mapsto> obj)"
    and n: "nextRef s' = Suc (nextRef s)"
    and gl: "\<And>k r. globalSharedObjects s' k = Some r \<Longrightarrow>
               globalSharedObjects s k = Some r \<or> (r = nextRef s \<and> type obj = GLOBAL)"
    and gr: "\<And>g m k r. groupSharedObjects s' g = Some m \<Longrightarrow> m k = Some r \<Longrightarrow>
               (\<exists>m0. groupSharedObjects s g = Some m0 \<and> m0 k = Some r) \<or>
               (r = nextRef s \<and> type obj = GROUP)"
    and cl: "\<And>k r. clientSharedObjects s' k = Some r \<Longrightarrow>
               clientSharedObjects s k = Some r \<or> (r = nextRef s \<and> type obj = CLIENT)"
  shows "tabled s'"
proof -
  have old: "objects s' r = objects s r" if "map_option type (objects s r) = Some c" for r c
  proof -
    from that obtain x where "objects s r = Some x" by (cases "objects s r") simp_all
    with t have "r < nextRef s" by (simp add: tabled_def)
    then show ?thesis by (simp add: o)
  qed
  have new: "map_option type (objects s' (nextRef s)) = Some (type obj)"
    by (simp add: o)
  have a: "r < nextRef s'" if "objects s' r = Some x" for r x
  proof (cases "r = nextRef s")
    case True then show ?thesis by (simp add: n)
  next
    case False
    with that have "objects s r = Some x" by (simp add: o)
    with t have "r < nextRef s" by (simp add: tabled_def)
    then show ?thesis by (simp add: n)
  qed
  have b: "map_option type (objects s' r) = Some GLOBAL" if "globalSharedObjects s' k = Some r" for k r
  proof -
    from gl [OF that] show ?thesis
    proof
      assume "globalSharedObjects s k = Some r"
      with t have x: "map_option type (objects s r) = Some GLOBAL" by (simp add: tabled_def)
      show ?thesis unfolding old [OF x] by (rule x)
    next
      assume "r = nextRef s \<and> type obj = GLOBAL"
      then show ?thesis using new by simp
    qed
  qed
  have c: "map_option type (objects s' r) = Some CLIENT" if "clientSharedObjects s' k = Some r" for k r
  proof -
    from cl [OF that] show ?thesis
    proof
      assume "clientSharedObjects s k = Some r"
      with t have x: "map_option type (objects s r) = Some CLIENT" by (simp add: tabled_def)
      show ?thesis unfolding old [OF x] by (rule x)
    next
      assume "r = nextRef s \<and> type obj = CLIENT"
      then show ?thesis using new by simp
    qed
  qed
  have d: "map_option type (objects s' r) = Some GROUP"
    if "groupSharedObjects s' g = Some m" and "m k = Some r" for g m k r
  proof -
    from gr [OF that] show ?thesis
    proof
      assume "\<exists>m0. groupSharedObjects s g = Some m0 \<and> m0 k = Some r"
      then obtain m0 where "groupSharedObjects s g = Some m0" and "m0 k = Some r" by blast
      with t have x: "map_option type (objects s r) = Some GROUP"
        unfolding tabled_def by blast
      show ?thesis unfolding old [OF x] by (rule x)
    next
      assume "r = nextRef s \<and> type obj = GROUP"
      then show ?thesis using new by simp
    qed
  qed
  show "tabled s'"
    unfolding tabled_def using a b c d by blast
qed

lemma tb_setProperties: "tabled s \<Longrightarrow> tabled (setProperties r v s)"
proof (cases "objects s r")
  case None
  then show "tabled s \<Longrightarrow> tabled (setProperties r v s)" by (simp add: setProperties_def)
next
  case (Some obj)
  assume t: "tabled s"
  let ?obj = "assignAll (forIn v) obj"
  have ty: "type ?obj = type obj" by (simp add: assignAll_keeps)
  show "tabled (setProperties r v s)"
    by (rule tabled_update [OF t Some ty])
       (simp_all add: Some setProperties_def Let_def emit_def split: option.splits)
qed

lemma tb_onApply: "tabled s \<Longrightarrow> tabled (onApply r fs s)"
proof (cases "objects s r")
  case None
  then show "tabled s \<Longrightarrow> tabled (onApply r fs s)" by (simp add: onApply_def)
next
  case (Some obj)
  assume t: "tabled s"
  show "tabled (onApply r fs s)"
  proof (cases fs)
    case Nil
    then show ?thesis using t Some by (simp add: onApply_def)
  next
    case (Cons f gs)
    have ty: "type (obj\<lparr>onChangeHandler := Some f\<rparr>) = type obj" by simp
    show ?thesis
      by (rule tabled_update [OF t Some ty]) (simp_all add: Some Cons onApply_def)
  qed
qed

lemma tb_setGlobal: "tabled s \<Longrightarrow> tabled (setGlobalSharedObject c s)"
proof (cases "Map_get (globalSharedObjects s) (field c ''name'')")
  case None
  assume t: "tabled s"
  show "tabled (setGlobalSharedObject c s)"
    by (rule tabled_alloc [OF t, where obj = "globalLevel (field c ''name'') Map.empty"])
       (simp_all add: None setGlobalSharedObject_def allocate_def globalLevel_def Map_set_def
          split: if_splits)
next
  case (Some r)
  then show "tabled s \<Longrightarrow> tabled (setGlobalSharedObject c s)"
    by (simp add: setGlobalSharedObject_def tb_setProperties)
qed

lemma tb_setClient: "tabled s \<Longrightarrow> tabled (setClientSharedObject c s)"
proof (cases "Map_get (clientSharedObjects s) (field c ''name'')")
  case None
  assume t: "tabled s"
  show "tabled (setClientSharedObject c s)"
    by (rule tabled_alloc [OF t, where obj = "clientLevel (field c ''name'') Map.empty"])
       (simp_all add: None setClientSharedObject_def allocate_def clientLevel_def Map_set_def
          split: if_splits)
next
  case (Some r)
  then show "tabled s \<Longrightarrow> tabled (setClientSharedObject c s)"
    by (simp add: setClientSharedObject_def tb_setProperties)
qed

lemma tb_globalShared: "tabled s \<Longrightarrow> tabled (snd (globalShared n s))"
proof (cases "Map_get (globalSharedObjects s) (Some (JString n))")
  case None
  assume t: "tabled s"
  show "tabled (snd (globalShared n s))"
    by (rule tabled_alloc [OF t, where obj = "globalLevel (Some (JString n)) Map.empty"])
       (simp_all add: None globalShared_def allocate_def globalLevel_def Map_set_def
          split: if_splits)
next
  case (Some r)
  then show "tabled s \<Longrightarrow> tabled (snd (globalShared n s))"
    by (simp add: globalShared_def)
qed

lemma tb_shared: "tabled s \<Longrightarrow> tabled (snd (shared n s))"
proof (cases "Map_get (clientSharedObjects s) (Some (JString n))")
  case None
  assume t: "tabled s"
  show "tabled (snd (shared n s))"
    by (rule tabled_alloc [OF t, where obj = "clientLevel (Some (JString n)) Map.empty"])
       (simp_all add: None shared_def allocate_def clientLevel_def Map_set_def
          split: if_splits)
next
  case (Some r)
  then show "tabled s \<Longrightarrow> tabled (snd (shared n s))"
    by (simp add: shared_def)
qed


lemma tabled_tables:
  assumes t: "tabled s"
    and "objects s' = objects s" and "nextRef s' = nextRef s"
    and "globalSharedObjects s' = globalSharedObjects s"
    and "clientSharedObjects s' = clientSharedObjects s"
    and gr: "\<And>g m k r. groupSharedObjects s' g = Some m \<Longrightarrow> m k = Some r \<Longrightarrow>
               \<exists>m0. groupSharedObjects s g = Some m0 \<and> m0 k = Some r"
  shows "tabled s'"
proof -
  have d: "map_option type (objects s r) = Some GROUP"
    if "groupSharedObjects s' g = Some m" and "m k = Some r" for g m k r
  proof -
    from gr [OF that] obtain m0 where "groupSharedObjects s g = Some m0" and "m0 k = Some r"
      by blast
    with t show ?thesis unfolding tabled_def by blast
  qed
  show "tabled s'"
    unfolding tabled_def assms(2,3,4,5)
    using t d by (simp add: tabled_def)
qed

lemma tb_groupShared: "tabled s \<Longrightarrow> tabled (snd (groupShared g n s))"
proof -
  assume t: "tabled s"
  define grp where "grp = (case Map_get (groupSharedObjects s) (Some (JString g)) of
                     None \<Rightarrow> Map.empty
                   | Some m \<Rightarrow> m)"
  have grp: "grp k = Some r \<Longrightarrow> \<exists>m0. groupSharedObjects s (Some (JString g)) = Some m0 \<and> m0 k = Some r"
    for k r
    by (simp add: grp_def Map_get_def split: option.splits)
  show "tabled (snd (groupShared g n s))"
  proof (cases "Map_get grp (Some (JString n))")
    case (Some r)
    have e: "snd (groupShared g n s) =
               s\<lparr>groupSharedObjects := Map_set (groupSharedObjects s) (Some (JString g)) grp\<rparr>"
      using Some by (simp add: groupShared_def grp_def [symmetric])
    show ?thesis
      unfolding e
    proof (rule tabled_tables [OF t])
      fix g' m k r'
      assume "groupSharedObjects
                (s\<lparr>groupSharedObjects := Map_set (groupSharedObjects s) (Some (JString g)) grp\<rparr>) g' =
              Some m" and "m k = Some r'"
      then show "\<exists>m0. groupSharedObjects s g' = Some m0 \<and> m0 k = Some r'"
        using grp [of k r'] by (cases "g' = Some (JString g)") (simp_all add: Map_set_def)
    qed simp_all
  next
    case None
    have e: "snd (groupShared g n s) =
               s\<lparr>objects := (objects s)(nextRef s \<mapsto> groupLevel (Some (JString n)) Map.empty),
                 nextRef := Suc (nextRef s),
                 groupSharedObjects :=
                   Map_set (groupSharedObjects s) (Some (JString g))
                     (Map_set grp (Some (JString n)) (nextRef s))\<rparr>"
      using None by (simp add: groupShared_def grp_def [symmetric] allocate_def)
    show ?thesis
      unfolding e
    proof (rule tabled_alloc [OF t, where obj = "groupLevel (Some (JString n)) Map.empty"])
      fix g' m k r'
      assume "groupSharedObjects
                (s\<lparr>objects := (objects s)(nextRef s \<mapsto> groupLevel (Some (JString n)) Map.empty),
                   nextRef := Suc (nextRef s),
                   groupSharedObjects :=
                     Map_set (groupSharedObjects s) (Some (JString g))
                       (Map_set grp (Some (JString n)) (nextRef s))\<rparr>) g' = Some m"
        and "m k = Some r'"
      then show "(\<exists>m0. groupSharedObjects s g' = Some m0 \<and> m0 k = Some r') \<or>
                 (r' = nextRef s \<and> type (groupLevel (Some (JString n)) Map.empty) = GROUP)"
        using grp [of k r']
        by (cases "g' = Some (JString g)"; cases "k = Some (JString n)")
           (auto simp: Map_set_def groupLevel_def)
    qed simp_all
  qed
qed

lemma tb_setGroup: "tabled s \<Longrightarrow> tabled (setGroupSharedObject c s)"
proof -
  assume t: "tabled s"
  define groups where "groups = (if \<not> Map_has (groupSharedObjects s) (field c ''group'')
                    then Map_set (groupSharedObjects s) (field c ''group'') Map.empty
                    else groupSharedObjects s)"
  define s0 where "s0 = s\<lparr>groupSharedObjects := groups\<rparr>"
  have s0: "tabled s0"
  proof (rule tabled_tables [OF t])
    fix g m k r
    assume "groupSharedObjects s0 g = Some m" and "m k = Some r"
    then show "\<exists>m0. groupSharedObjects s g = Some m0 \<and> m0 k = Some r"
      by (cases "g = field c ''group''")
         (auto simp: s0_def groups_def Map_set_def split: if_splits)
  qed (simp_all add: s0_def)
  have g0: "groupSharedObjects s0 = groups" by (simp add: s0_def)
  show "tabled (setGroupSharedObject c s)"
  proof (cases "Map_get groups (field c ''group'')")
    case None
    have e: "setGroupSharedObject c s =
               snd (allocate (groupLevel (field c ''name'') Map.empty) s0)"
      using None
      by (simp add: setGroupSharedObject_def Let_def groups_def [symmetric] s0_def [symmetric])
    show ?thesis
      unfolding e
      by (rule tabled_alloc [OF s0, where obj = "groupLevel (field c ''name'') Map.empty"])
         (simp_all add: allocate_def)
  next
    case (Some grp)
    note G = Some
    show ?thesis
    proof (cases "Map_get grp (field c ''name'')")
      case (Some r)
      have e: "setGroupSharedObject c s = setProperties r (field c ''values'') s0"
        using G Some
        by (simp add: setGroupSharedObject_def Let_def groups_def [symmetric] s0_def [symmetric])
      show ?thesis unfolding e using s0 by (rule tb_setProperties)
    next
      case None
      have e: "setGroupSharedObject c s =
                 s0\<lparr>objects := (objects s0)(nextRef s0 \<mapsto> groupLevel (field c ''name'') Map.empty),
                    nextRef := Suc (nextRef s0),
                    groupSharedObjects :=
                      Map_set groups (field c ''group'')
                        (Map_set grp (field c ''name'') (nextRef s0))\<rparr>"
        using G None
        by (simp add: setGroupSharedObject_def Let_def groups_def [symmetric] s0_def [symmetric]
            allocate_def)
      have grp: "groups (field c ''group'') = Some grp"
        using G by (simp add: Map_get_def split: if_splits)
      show ?thesis
        unfolding e
      proof (rule tabled_alloc [OF s0, where obj = "groupLevel (field c ''name'') Map.empty"])
        fix g' m k r'
        assume "groupSharedObjects
                  (s0\<lparr>objects := (objects s0)(nextRef s0 \<mapsto> groupLevel (field c ''name'') Map.empty),
                      nextRef := Suc (nextRef s0),
                      groupSharedObjects :=
                        Map_set groups (field c ''group'')
                          (Map_set grp (field c ''name'') (nextRef s0))\<rparr>) g' = Some m"
          and "m k = Some r'"
        then show "(\<exists>m0. groupSharedObjects s0 g' = Some m0 \<and> m0 k = Some r') \<or>
                   (r' = nextRef s0 \<and> type (groupLevel (field c ''name'') Map.empty) = GROUP)"
          using grp
          by (cases "g' = field c ''group''"; cases "k = field c ''name''")
             (auto simp: g0 Map_set_def groupLevel_def split: if_splits)
      qed simp_all
    qed
  qed
qed


lemma tb_sendCommand: "tabled s \<Longrightarrow> tabled (snd (sendCommand m s))"
  by (rule tabled_same [OF so_sendCommand])

lemma tb_emit: "tabled s \<Longrightarrow> tabled (emit e s)"
  by (rule tabled_same [OF so_emit])

lemma tb_invokeEach: "tabled s \<Longrightarrow> tabled (invokeEach fs a s)"
  by (rule tabled_same [OF so_invokeEach])

lemma tb_handleSync: "tabled s \<Longrightarrow> tabled (handleSync c s)"
  by (simp add: handleSync_def tb_setGlobal tb_setGroup tb_setClient)

lemma tb_handleEvent: "tabled s \<Longrightarrow> tabled (handleEvent c s)"
  by (simp add: handleEvent_def tb_invokeEach split: option.splits)

lemma tb_sendRmiResultCommand: "tabled s \<Longrightarrow> tabled (sendRmiResultCommand a b c s)"
  by (simp add: sendRmiResultCommand_def tb_sendCommand)

lemma tb_reactions: "tabled s \<Longrightarrow> tabled (s\<lparr>reactions := x\<rparr>)"
  by (simp add: tabled_def)

lemma tb_handleRMICommand: "tabled s \<Longrightarrow> tabled (snd (handleRMICommand c s))"
  by (simp add: handleRMICommand_def tb_sendRmiResultCommand tb_reactions
        split: option.splits sum.splits outcome.splits)

lemma so_handleRmiResultCommand: "sameObjects s (snd (handleRmiResultCommand c s))"
  by (simp add: handleRmiResultCommand_def emit_def sameObjects_def split: option.splits)

lemma tb_handleRmiResultCommand: "tabled s \<Longrightarrow> tabled (snd (handleRmiResultCommand c s))"
  by (rule tabled_same [OF so_handleRmiResultCommand])

lemma so_sendSocketId: "sameObjects s (sendSocketId s)"
proof -
  have "sameObjects s ((snd (sendCommand m s))\<lparr>online := True\<rparr>)" for m
    using so_sendCommand [of s m] by (simp add: sameObjects_def)
  then show "sameObjects s (sendSocketId s)"
    by (simp add: sendSocketId_def so_sendCommand)
qed

lemma tb_handleCommand: "tabled s \<Longrightarrow> tabled (snd (handleCommand c s))"
proof -
  assume sc: "tabled s"
  define t where "t = (if debug (configs s) then emit (ConsoleLog ''INPUT COMMAND:'' c) s else s)"
  have t: "tabled t" using sc by (simp add: t_def tb_emit)
  have g: "tabled (sendSocketId t)" using so_sendSocketId t by (rule tabled_same)
  have u: "tabled (t\<lparr>socketId := field c ''socketId'', online := True\<rparr>)"
    using t by (simp add: tabled_def)
  show "tabled (snd (handleCommand c s))"
    unfolding handleCommand_def Let_def t_def [symmetric]
    using t
    by (simp add: g u tb_emit tb_handleEvent tb_handleSync tb_handleRMICommand
        tb_handleRmiResultCommand split: option.splits)
qed

lemma tb_handleOnMessage: "tabled s \<Longrightarrow> tabled (snd (handleOnMessage cd d s))"
  by (simp add: handleOnMessage_def Let_def tb_handleCommand tb_invokeEach)

lemma so_connect: "sameObjects s (connect s)"
  by (simp add: connect_def emit_def sameObjects_def)

lemma tb_connect: "tabled s \<Longrightarrow> tabled (connect s)"
  by (rule tabled_same [OF so_connect])

lemma tb_Syncs: "tabled (Syncs p c)"
proof -
  have "tabled s"
    if "objects s = Map.empty" and "globalSharedObjects s = Map.empty"
      and "groupSharedObjects s = Map.empty" and "clientSharedObjects s = Map.empty" for s
    using that by (simp add: tabled_def)
  then show "tabled (Syncs p c)"
    by (simp add: Syncs_def Let_def tb_connect)
qed

lemma so_disconnect: "sameObjects s (snd (disconnect s))"
  by (simp add: disconnect_def emit_def Let_def sameObjects_def split: option.splits)

lemma tb_disconnect: "tabled s \<Longrightarrow> tabled (snd (disconnect s))"
  by (rule tabled_same [OF so_disconnect])

lemma so_transportOpened: "sameObjects s (transportOpened s)"
  by (simp add: transportOpened_def sameObjects_def)

lemma tb_transportOpened: "tabled s \<Longrightarrow> tabled (transportOpened s)"
  by (rule tabled_same [OF so_transportOpened])

lemma so_handleOnClose: "sameObjects s (handleOnClose s)"
  by (simp add: handleOnClose_def emit_def Let_def sameObjects_def split: option.splits)

lemma tb_handleOnClose: "tabled s \<Longrightarrow> tabled (handleOnClose s)"
  by (rule tabled_same [OF so_handleOnClose])

lemma tb_reconnectTimeout: "tabled s \<Longrightarrow> tabled (reconnectTimeout s)"
  by (simp add: reconnectTimeout_def tb_connect)

lemma tb_react: "tabled s \<Longrightarrow> tabled (react st i s)"
  by (cases st) (simp_all add: tb_sendRmiResultCommand)

lemma tb_reactAll: "tabled s \<Longrightarrow> tabled (reactAll st is s)"
  by (induction "is" arbitrary: s) (simp_all add: tb_react)

lemma tb_promiseSettled: "tabled s \<Longrightarrow> tabled (promiseSettled q st s)"
  by (simp add: promiseSettled_def tb_reactAll tb_reactions)

lemma so_send: "sameObjects s (snd (send m s))"
  by (simp add: send_def socket_send_def emit_def sameObjects_def split: option.splits)

lemma tb_send: "tabled s \<Longrightarrow> tabled (snd (send m s))"
  by (rule tabled_same [OF so_send])

lemma tb_publish: "tabled s \<Longrightarrow> tabled (snd (publish e x s))"
  by (simp add: publish_def tb_sendCommand)

lemma tb_sendSyncCommand: "tabled s \<Longrightarrow> tabled (sendSyncCommand r k s)"
  by (simp add: sendSyncCommand_def tb_sendCommand split: option.splits)

lemma tb_onSet: "tabled s \<Longrightarrow> tabled (snd (onSet r k v s))"
proof (cases "objects s r")
  case None
  then show "tabled s \<Longrightarrow> tabled (snd (onSet r k v s))" by (simp add: onSet_def)
next
  case (Some obj)
  assume t: "tabled s"
  let ?obj = "assign k v obj"
  let ?s1 = "s\<lparr>objects := (objects s)(r \<mapsto> ?obj)\<rparr>"
  have ty: "type ?obj = type obj" by (simp add: assign_keeps)
  have s1: "tabled ?s1" by (rule tabled_update [OF t Some ty]) simp_all
  have s2: "tabled (emit e ?s1)" for e using s1 by (rule tb_emit)
  show "tabled (snd (onSet r k v s))"
    using Some t s1 s2 by (simp add: onSet_def Let_def tb_sendSyncCommand split: option.splits)
qed

lemma tb_remoteMethod_call: "tabled s \<Longrightarrow> tabled (snd (remoteMethod_call rm args s))"
proof -
  assume t: "tabled s"
  have "sameObjects s (snd (remoteMethod_call rm args s))"
    using so_sendCommand [of s]
    by (simp add: remoteMethod_call_def sendRMICommand_def Let_def sameObjects_def)
  then show "tabled (snd (remoteMethod_call rm args s))" using t by (rule tabled_same)
qed

lemma reachable_tabled: "reachable s \<Longrightarrow> tabled s"
proof (induction rule: reachable.induct)
  case (constructed p c) show ?case by (rule tb_Syncs)
next
  case (connected s) then show ?case by (simp add: tb_connect)
next
  case (disconnected s) then show ?case by (simp add: tb_disconnect)
next
  case (opened s) then show ?case by (simp add: tb_transportOpened)
next
  case (message s cd d) then show ?case by (simp add: tb_handleOnMessage)
next
  case (closed s) then show ?case by (simp add: tb_handleOnClose)
next
  case (timeout s) then show ?case by (simp add: tb_reconnectTimeout)
next
  case (settled s q st) then show ?case by (simp add: tb_promiseSettled)
next
  case (debugOn s) then show ?case by (simp add: enableDebugMode_def tabled_def)
next
  case (debugOff s) then show ?case by (simp add: disableDebugMode_def tabled_def)
next
  case (listenOpen s f) then show ?case by (simp add: onOpen_def tabled_def)
next
  case (listenClose s f) then show ?case by (simp add: onClose_def tabled_def)
next
  case (listenDisconnect s f) then show ?case by (simp add: onDisconnect_def tabled_def)
next
  case (listenMessage s f) then show ?case by (simp add: onMessage_def tabled_def)
next
  case (sent s m) then show ?case by (simp add: tb_send)
next
  case (sentCommand s m) then show ?case by (simp add: tb_sendCommand)
next
  case (subscribed s e f) then show ?case by (simp add: subscribe_eq tabled_def)
next
  case (unSubscribed s e f)
  then show ?case by (simp add: unSubscribe_def tabled_def Let_def split: option.splits)
next
  case (published s e x) then show ?case by (simp add: tb_publish)
next
  case (sharedView s n) then show ?case by (simp add: tb_shared)
next
  case (groupView s g n) then show ?case by (simp add: tb_groupShared)
next
  case (globalView s n) then show ?case by (simp add: tb_globalShared)
next
  case (applied s r fs) then show ?case by (simp add: tb_onApply)
next
  case (written s r k v) then show ?case by (simp add: tb_onSet)
next
  case (registered s k fn) then show ?case by (simp add: functions_set_def tabled_def)
next
  case (called s rm args) then show ?case by (simp add: tb_remoteMethod_call)
qed

lemma globalShared_listed:
  "globalSharedObjects (snd (globalShared n s)) (Some (JString n)) = Some (fst (globalShared n s))"
  by (simp add: globalShared_def allocate_def Map_get_def Map_set_def split: option.splits)

lemma shared_listed:
  "clientSharedObjects (snd (shared n s)) (Some (JString n)) = Some (fst (shared n s))"
  by (simp add: shared_def allocate_def Map_get_def Map_set_def split: option.splits)

lemma groupShared_listed:
  "\<exists>m. groupSharedObjects (snd (groupShared g n s)) (Some (JString g)) = Some m \<and>
       m (Some (JString n)) = Some (fst (groupShared g n s))"
  by (simp add: groupShared_def allocate_def Map_get_def Map_set_def Let_def split: option.splits)

text \<open>
  The view that \<open>globalShared\<close>, \<open>groupShared\<close> or \<open>shared\<close> returns is the view of an object
  of that scope, whether the call created the object or found it.
\<close>

lemma views_have_their_scope:
  assumes "reachable s"
  shows "map_option type (objects (snd (globalShared n s)) (fst (globalShared n s))) = Some GLOBAL"
    and "map_option type (objects (snd (groupShared g n s)) (fst (groupShared g n s))) = Some GROUP"
    and "map_option type (objects (snd (shared n s)) (fst (shared n s))) = Some CLIENT"
proof -
  have t: "tabled s" using assms by (rule reachable_tabled)
  have a: "tabled (snd (globalShared n s))" using t by (rule tb_globalShared)
  have b: "tabled (snd (groupShared g n s))" using t by (rule tb_groupShared)
  have c: "tabled (snd (shared n s))" using t by (rule tb_shared)
  show "map_option type (objects (snd (globalShared n s)) (fst (globalShared n s))) = Some GLOBAL"
    using a globalShared_listed [of n s] unfolding tabled_def by blast
  show "map_option type (objects (snd (groupShared g n s)) (fst (groupShared g n s))) = Some GROUP"
    using b groupShared_listed [of g n s] unfolding tabled_def by blast
  show "map_option type (objects (snd (shared n s)) (fst (shared n s))) = Some CLIENT"
    using c shared_listed [of n s] unfolding tabled_def by blast
qed

section \<open>Shared objects: writes on the reactive view\<close>

lemma syncFrame_eq:
  "JObject (setProperty ''command'' (JBool True)
      (object [(''type'', Some (JString ''sync'')), (''name'', n),
               (''scope'', Some (JString ''CLIENT'')), (''key'', Some (JString k)),
               (''value'', Some v)])) = syncFrame n k v"
  by (cases n) (simp_all add: syncFrame_def)

lemma sendSyncCommand_eq:
  assumes "objects s r = Some obj" and "lookup obj k = Some v"
  shows "sendSyncCommand r k s =
           s\<lparr>effects := effects s @ outbound s (syncFrame (name obj) k v)\<rparr>"
  using assms
  by (simp add: sendSyncCommand_def sendCommand_object syncFrame_eq [symmetric]
       del: setProperty.simps object.simps)

text \<open>A write to a key other than \<open>__proto__\<close>, on a writable object.\<close>

lemma onSet_eq:
  assumes "objects s r = Some obj" and "\<not> readOnly obj" and "k \<noteq> ''__proto__''"
  shows "onSet r k v s =
           (True, s\<lparr>objects := (objects s)(r \<mapsto> obj\<lparr>rawData := (rawData obj)(k \<mapsto> v)\<rparr>),
                    effects := effects s @ changed obj (JObject [(k, v)]) ''client'' @
                               outbound s (syncFrame (name obj) k v)\<rparr>)"
proof -
  let ?obj = "obj\<lparr>rawData := (rawData obj)(k \<mapsto> v)\<rparr>"
  let ?s1 = "s\<lparr>objects := (objects s)(r \<mapsto> ?obj)\<rparr>"
  let ?s2 = "?s1\<lparr>effects := effects s @ changed obj (JObject [(k, v)]) ''client''\<rparr>"
  have a: "assign k v obj = ?obj"
    using assms(3) by (rule assign_key)
  have w: "valuesOf k v = JObject [(k, v)]"
    using assms(3) by (simp add: valuesOf_def)
  have e: "onSet r k v s = (True, sendSyncCommand r k ?s2)"
    using assms(1,2)
    by (simp add: onSet_def a w Let_def changed_def emit_def split: option.splits)
  have o: "objects ?s2 r = Some ?obj" by simp
  have d: "lookup ?obj k = Some v" by (rule lookup_own) simp
  have b: "outbound ?s2 (syncFrame (name obj) k v) = outbound s (syncFrame (name obj) k v)"
    by (rule outbound_cong) simp_all
  have n: "name ?obj = name obj" by simp
  show ?thesis
    unfolding e sendSyncCommand_eq [OF o d] n b by simp
qed

lemma shared_fresh:
  "Map_get (clientSharedObjects s) (Some (JString n)) = None \<Longrightarrow>
   shared n s =
     (nextRef s,
      s\<lparr>objects := (objects s)(nextRef s \<mapsto> clientLevel (Some (JString n)) Map.empty),
        nextRef := Suc (nextRef s),
        clientSharedObjects := Map_set (clientSharedObjects s) (Some (JString n)) (nextRef s)\<rparr>)"
  by (simp add: shared_def allocate_def)

lemma globalShared_fresh:
  "Map_get (globalSharedObjects s) (Some (JString n)) = None \<Longrightarrow>
   globalShared n s =
     (nextRef s,
      s\<lparr>objects := (objects s)(nextRef s \<mapsto> globalLevel (Some (JString n)) Map.empty),
        nextRef := Suc (nextRef s),
        globalSharedObjects := Map_set (globalSharedObjects s) (Some (JString n)) (nextRef s)\<rparr>)"
  by (simp add: globalShared_def allocate_def)

lemma groupShared_fresh:
  "Map_get (groupSharedObjects s) (Some (JString g)) = None \<Longrightarrow>
   groupShared g n s =
     (nextRef s,
      s\<lparr>objects := (objects s)(nextRef s \<mapsto> groupLevel (Some (JString n)) Map.empty),
        nextRef := Suc (nextRef s),
        groupSharedObjects :=
          Map_set (groupSharedObjects s) (Some (JString g))
            (Map_set Map.empty (Some (JString n)) (nextRef s))\<rparr>)"
  by (simp add: groupShared_def allocate_def Map_get_def)

text \<open>The client of the examples can be reached: its transport opened and the server named it.\<close>

lemma reachable_connected: "reachable connected"
proof -
  let ?c = "JObject [(''command'', JBool True), (''type'', JString ''setSocketId''),
                     (''socketId'', JString ''c1'')]"
  let ?cd = "\<lparr>decodeURI = Some, JSON_parse = (\<lambda>t. Some ?c)\<rparr>"
  have "reachable opened"
    unfolding opened_def by (intro reachable.opened reachable.constructed)
  then have "reachable (snd (handleOnMessage ?cd [] opened))"
    by (rule reachable.message)
  moreover have "handleOnMessage ?cd [] opened = handleCommand ?c opened"
    by (simp add: handleOnMessage_def parseMessage_def Let_def)
  ultimately show "reachable connected"
    by (simp add: connected_def)
qed

text \<open>
  Claim C6, as amended. In every state the client can reach, an object is read-only
  exactly when its scope is \<open>GLOBAL\<close> or \<open>GROUP\<close> (these are the objects whose views
  \<open>globalShared\<close> and \<open>groupShared\<close> return, as \<open>shared\<close> returns the views of \<open>CLIENT\<close>
  objects), and a write on the view of such an object returns \<open>false\<close> and changes
  nothing: no mirror change, no listener call, no command. A write of \<open>v\<close> to a key \<open>k\<close> other than \<open>__proto__\<close> on the
  view of a \<open>CLIENT\<close> object returns \<open>true\<close>, stores \<open>v\<close> under \<open>k\<close> so that reading \<open>k\<close>
  gives \<open>v\<close>, calls the change listener, when one is registered, once with
  \<open>{values: {k: v}, by: 'client'}\<close>, and hands one \<open>sync\<close> command with scope \<open>CLIENT\<close>,
  the object's name, \<open>k\<close> and \<open>v\<close> to \<open>sendCommand\<close>: the command is transmitted, once,
  exactly when the transport accepts it.
\<close>

theorem write_on_view:
  assumes "reachable s" and "objects s r = Some obj"
  shows "readOnly obj = (type obj = GLOBAL \<or> type obj = GROUP) \<and>
         (type obj = GLOBAL \<or> type obj = GROUP \<longrightarrow> onSet r k v s = (False, s)) \<and>
         (type obj = CLIENT \<and> k \<noteq> ''__proto__'' \<longrightarrow>
            fst (onSet r k v s) = True \<and>
            objects (snd (onSet r k v s)) =
              (objects s)(r \<mapsto> obj\<lparr>rawData := (rawData obj)(k \<mapsto> v)\<rparr>) \<and>
            onGet r k (snd (onSet r k v s)) = v \<and>
            invoked (added s (snd (onSet r k v s))) =
              (case onChangeHandler obj of
                 Some f \<Rightarrow> [(f, [Some (JObject [(''values'', JObject [(k, v)]),
                                                  (''by'', JString ''client'')])])]
               | None \<Rightarrow> []) \<and>
            transmitted (added s (snd (onSet r k v s))) =
              (if canTransmit s then [syncFrame (name obj) k v] else []))"
proof -
  have ro: "readOnly obj = (type obj \<noteq> CLIENT)"
    using reachable_scoped [OF assms(1)] assms(2) by (rule scoped_object)
  have g: "onSet r k v s = (False, s)" if "type obj \<noteq> CLIENT"
    using that ro assms(2) by (simp add: onSet_def)
  have c: "fst (onSet r k v s) = True \<and>
            objects (snd (onSet r k v s)) =
              (objects s)(r \<mapsto> obj\<lparr>rawData := (rawData obj)(k \<mapsto> v)\<rparr>) \<and>
            onGet r k (snd (onSet r k v s)) = v \<and>
            invoked (added s (snd (onSet r k v s))) =
              (case onChangeHandler obj of
                 Some f \<Rightarrow> [(f, [Some (JObject [(''values'', JObject [(k, v)]),
                                                  (''by'', JString ''client'')])])]
               | None \<Rightarrow> []) \<and>
            transmitted (added s (snd (onSet r k v s))) =
              (if canTransmit s then [syncFrame (name obj) k v] else [])"
    if t: "type obj = CLIENT" and k: "k \<noteq> ''__proto__''"
  proof -
    have w: "\<not> readOnly obj" using ro t by simp
    have i: "invoked (changed obj (JObject [(k, v)]) ''client'') =
               (case onChangeHandler obj of
                   Some f \<Rightarrow> [(f, [Some (JObject [(''values'', JObject [(k, v)]),
                                                    (''by'', JString ''client'')])])]
                 | None \<Rightarrow> [])"
      by (simp add: changed_def split: option.splits)
    have n: "transmitted (changed obj (JObject [(k, v)]) ''client'') = []"
      by (simp add: changed_def split: option.splits)
    show ?thesis
      by (simp add: onSet_eq [OF assms(2) w k] added_def onGet_def lookup_def invoked_append
          transmitted_append i n transmitted_outbound invoked_outbound)
  qed
  show ?thesis
    using ro g c by (cases "type obj") simp_all
qed

theorem write_on_view_witness:
  "reachable (snd (globalShared ''settings'' connected)) \<and>
   fst (globalShared ''settings'' connected) = 0 \<and>
   map_option type (objects (snd (globalShared ''settings'' connected)) 0) = Some GLOBAL \<and>
   onSet 0 ''bg'' (JString ''red'') (snd (globalShared ''settings'' connected)) =
     (False, snd (globalShared ''settings'' connected)) \<and>
   reachable (snd (groupShared ''room'' ''board'' connected)) \<and>
   fst (groupShared ''room'' ''board'' connected) = 0 \<and>
   map_option type (objects (snd (groupShared ''room'' ''board'' connected)) 0) = Some GROUP \<and>
   onSet 0 ''bg'' (JString ''red'') (snd (groupShared ''room'' ''board'' connected)) =
     (False, snd (groupShared ''room'' ''board'' connected)) \<and>
   reachable (onApply 0 [9] (snd (shared ''info'' connected))) \<and>
   fst (shared ''info'' connected) = 0 \<and>
   map_option type (objects (onApply 0 [9] (snd (shared ''info'' connected))) 0) = Some CLIENT \<and>
   fst (onSet 0 ''title'' (JString ''Hi'') (onApply 0 [9] (snd (shared ''info'' connected)))) =
     True \<and>
   onGet 0 ''title''
     (snd (onSet 0 ''title'' (JString ''Hi'') (onApply 0 [9] (snd (shared ''info'' connected))))) =
     JString ''Hi'' \<and>
   invoked (added (onApply 0 [9] (snd (shared ''info'' connected)))
     (snd (onSet 0 ''title'' (JString ''Hi'') (onApply 0 [9] (snd (shared ''info'' connected)))))) =
     [(9, [Some (JObject [(''values'', JObject [(''title'', JString ''Hi'')]),
                          (''by'', JString ''client'')])])] \<and>
   transmitted (added (onApply 0 [9] (snd (shared ''info'' connected)))
     (snd (onSet 0 ''title'' (JString ''Hi'') (onApply 0 [9] (snd (shared ''info'' connected)))))) =
     [JObject [(''type'', JString ''sync''), (''name'', JString ''info''),
               (''scope'', JString ''CLIENT''), (''key'', JString ''title''),
               (''value'', JString ''Hi''), (''command'', JBool True)]]"
proof -
  let ?g = "snd (globalShared ''settings'' connected)"
  let ?p = "snd (groupShared ''room'' ''board'' connected)"
  let ?c = "onApply 0 [9] (snd (shared ''info'' connected))"
  have rg: "reachable ?g"
    using reachable_connected by (rule reachable.globalView)
  have rp: "reachable ?p"
    using reachable_connected by (rule reachable.groupView)
  have rc: "reachable ?c"
    by (intro reachable.applied reachable.sharedView reachable_connected)
  have a: "shared ''info'' connected =
             (0, connected\<lparr>objects :=
                             (objects connected)(0 \<mapsto> clientLevel (Some (JString ''info'')) Map.empty),
                          nextRef := Suc 0,
                          clientSharedObjects :=
                            Map_set (clientSharedObjects connected) (Some (JString ''info'')) 0\<rparr>)"
    using shared_fresh [of connected "''info''"]
    by (simp add: connected_eq opened_eq Map_get_def)
  have b: "globalShared ''settings'' connected =
             (0, connected\<lparr>objects :=
                             (objects connected)(0 \<mapsto> globalLevel (Some (JString ''settings'')) Map.empty),
                          nextRef := Suc 0,
                          globalSharedObjects :=
                            Map_set (globalSharedObjects connected) (Some (JString ''settings'')) 0\<rparr>)"
    using globalShared_fresh [of connected "''settings''"]
    by (simp add: connected_eq opened_eq Map_get_def)
  have d: "groupShared ''room'' ''board'' connected =
             (0, connected\<lparr>objects :=
                             (objects connected)(0 \<mapsto> groupLevel (Some (JString ''board'')) Map.empty),
                          nextRef := Suc 0,
                          groupSharedObjects :=
                            Map_set (groupSharedObjects connected) (Some (JString ''room''))
                              (Map_set Map.empty (Some (JString ''board'')) 0)\<rparr>)"
    using groupShared_fresh [of connected "''room''" "''board''"]
    by (simp add: connected_eq opened_eq Map_get_def)
  have oc: "objects ?c 0 =
              Some ((clientLevel (Some (JString ''info'')) Map.empty)\<lparr>onChangeHandler := Some 9\<rparr>)"
    by (simp add: a onApply_def)
  have og: "objects ?g 0 = Some (globalLevel (Some (JString ''settings'')) Map.empty)"
    by (simp add: b)
  have op: "objects ?p 0 = Some (groupLevel (Some (JString ''board'')) Map.empty)"
    by (simp add: d)
  have ct: "canTransmit ?c"
    unfolding a by (simp add: onApply_def canTransmit_def connected_eq opened_eq)
  have wg: "onSet 0 ''bg'' (JString ''red'') ?g = (False, ?g)"
    using write_on_view [OF rg og, of "''bg''" "JString ''red''"]
    by (simp add: globalLevel_def)
  have wp: "onSet 0 ''bg'' (JString ''red'') ?p = (False, ?p)"
    using write_on_view [OF rp op, of "''bg''" "JString ''red''"]
    by (simp add: groupLevel_def)
  have wc: "fst (onSet 0 ''title'' (JString ''Hi'') ?c) = True \<and>
            onGet 0 ''title'' (snd (onSet 0 ''title'' (JString ''Hi'') ?c)) = JString ''Hi'' \<and>
            invoked (added ?c (snd (onSet 0 ''title'' (JString ''Hi'') ?c))) =
              [(9, [Some (JObject [(''values'', JObject [(''title'', JString ''Hi'')]),
                                   (''by'', JString ''client'')])])] \<and>
            transmitted (added ?c (snd (onSet 0 ''title'' (JString ''Hi'') ?c))) =
              [JObject [(''type'', JString ''sync''), (''name'', JString ''info''),
                        (''scope'', JString ''CLIENT''), (''key'', JString ''title''),
                        (''value'', JString ''Hi''), (''command'', JBool True)]]"
    using write_on_view [OF rc oc, of "''title''" "JString ''Hi''"] ct
    by (simp add: clientLevel_def syncFrame_def)
  have tg: "map_option type (objects ?g 0) = Some GLOBAL"
    by (simp add: og globalLevel_def)
  have tp: "map_option type (objects ?p 0) = Some GROUP"
    by (simp add: op groupLevel_def)
  have tc: "map_option type (objects ?c 0) = Some CLIENT"
    by (simp add: oc clientLevel_def)
  have fg: "fst (globalShared ''settings'' connected) = 0" by (simp add: b)
  have fp: "fst (groupShared ''room'' ''board'' connected) = 0" by (simp add: d)
  have fc: "fst (shared ''info'' connected) = 0" by (simp add: a)
  show ?thesis
    using rg rp rc wg wp wc tg tp tc fg fp fc by blast
qed

text \<open>
  The claim as stated fails in two places. It says that every write on a \<open>CLIENT\<close>
  object emits a \<open>sync\<close> command: on a client that was constructed with
  \<open>autoConnect: false\<close> and has no transport yet, the write succeeds locally and
  \<open>sendCommand\<close> swallows the failure of \<open>this.socket.send\<close>, so nothing is emitted. And
  it speaks of every key: a write of \<open>'x'\<close> to \<open>__proto__\<close> stores nothing, a read of
  \<open>__proto__\<close> gives \<open>Object.prototype\<close> and not \<open>'x'\<close>, the listener is called with
  empty \<open>values\<close>, and the command carries \<open>Object.prototype\<close> as its value.
\<close>

theorem write_without_transport_sends_nothing:
  "fst (shared ''info'' (Syncs ''ws://host/syncs'' manual)) = 0 \<and>
   fst (onSet 0 ''title'' (JString ''Hi'') (snd (shared ''info'' (Syncs ''ws://host/syncs'' manual)))) =
     True \<and>
   onGet 0 ''title''
     (snd (onSet 0 ''title'' (JString ''Hi'')
        (snd (shared ''info'' (Syncs ''ws://host/syncs'' manual))))) = JString ''Hi'' \<and>
   added (snd (shared ''info'' (Syncs ''ws://host/syncs'' manual)))
     (snd (onSet 0 ''title'' (JString ''Hi'')
        (snd (shared ''info'' (Syncs ''ws://host/syncs'' manual))))) = [] \<and>
   fst (onSet 0 ''__proto__'' (JString ''x'') (onApply 0 [9] (snd (shared ''info'' connected)))) =
     True \<and>
   objects (snd (onSet 0 ''__proto__'' (JString ''x'')
                   (onApply 0 [9] (snd (shared ''info'' connected))))) =
     objects (onApply 0 [9] (snd (shared ''info'' connected))) \<and>
   onGet 0 ''__proto__''
     (snd (onSet 0 ''__proto__'' (JString ''x'')
             (onApply 0 [9] (snd (shared ''info'' connected))))) = JObject [] \<and>
   invoked (added (onApply 0 [9] (snd (shared ''info'' connected)))
     (snd (onSet 0 ''__proto__'' (JString ''x'')
             (onApply 0 [9] (snd (shared ''info'' connected)))))) =
     [(9, [Some (JObject [(''values'', JObject []), (''by'', JString ''client'')])])] \<and>
   transmitted (added (onApply 0 [9] (snd (shared ''info'' connected)))
     (snd (onSet 0 ''__proto__'' (JString ''x'')
             (onApply 0 [9] (snd (shared ''info'' connected)))))) =
     [JObject [(''type'', JString ''sync''), (''name'', JString ''info''),
               (''scope'', JString ''CLIENT''), (''key'', JString ''__proto__''),
               (''value'', JObject []), (''command'', JBool True)]]"
proof -
  let ?m = "Syncs ''ws://host/syncs'' manual"
  let ?c = "onApply 0 [9] (snd (shared ''info'' connected))"
  let ?obj = "(clientLevel (Some (JString ''info'')) Map.empty)\<lparr>onChangeHandler := Some 9\<rparr>"
  have a: "shared ''info'' ?m =
             (0, ?m\<lparr>objects := (objects ?m)(0 \<mapsto> clientLevel (Some (JString ''info'')) Map.empty),
                     nextRef := Suc 0,
                     clientSharedObjects :=
                       Map_set (clientSharedObjects ?m) (Some (JString ''info'')) 0\<rparr>)"
    using shared_fresh [of ?m "''info''"]
    by (simp add: manual_eq Map_get_def)
  have o: "objects (snd (shared ''info'' ?m)) 0 =
             Some (clientLevel (Some (JString ''info'')) Map.empty)"
    by (simp add: a)
  have r: "\<not> readOnly (clientLevel (Some (JString ''info'')) Map.empty)"
    by (simp add: clientLevel_def)
  have k: "''title'' \<noteq> ''__proto__''" by simp
  have first: "fst (shared ''info'' ?m) = 0 \<and>
     fst (onSet 0 ''title'' (JString ''Hi'') (snd (shared ''info'' ?m))) = True \<and>
     onGet 0 ''title'' (snd (onSet 0 ''title'' (JString ''Hi'') (snd (shared ''info'' ?m)))) =
       JString ''Hi'' \<and>
     added (snd (shared ''info'' ?m))
       (snd (onSet 0 ''title'' (JString ''Hi'') (snd (shared ''info'' ?m)))) = []"
    by (simp only: onSet_eq [OF o r k], simp only: a,
        simp add: added_def onGet_def lookup_def changed_def outbound_def canTransmit_def
          manual_eq clientLevel_def)
  have b: "shared ''info'' connected =
             (0, connected\<lparr>objects :=
                             (objects connected)(0 \<mapsto> clientLevel (Some (JString ''info'')) Map.empty),
                          nextRef := Suc 0,
                          clientSharedObjects :=
                            Map_set (clientSharedObjects connected) (Some (JString ''info'')) 0\<rparr>)"
    using shared_fresh [of connected "''info''"]
    by (simp add: connected_eq opened_eq Map_get_def)
  have oc: "objects ?c 0 = Some ?obj"
    by (simp add: b onApply_def)
  have ct: "canTransmit ?c" "\<not> debug (configs ?c)"
    unfolding b by (simp_all add: onApply_def canTransmit_def connected_eq opened_eq)
  have as: "assign ''__proto__'' (JString ''x'') ?obj = ?obj"
    by (simp add: assign_def reachesAccessor_def clientLevel_def)
  have lk: "lookup ?obj ''__proto__'' = Some (JObject [])"
    by (simp add: lookup_def clientLevel_def)
  let ?s2 = "emit (Invoke 9 [Some (JObject [(''values'', JObject []), (''by'', JString ''client'')])]) ?c"
  have step: "onSet r k v s =
      (True, sendSyncCommand r k
               (emit (Invoke f [Some (JObject [(''values'', valuesOf k v),
                                               (''by'', JString ''client'')])]) s))"
    if "objects s r = Some obj" and "\<not> readOnly obj" and "assign k v obj = obj"
      and "onChangeHandler obj = Some f" for r k v s obj f
    using that by (simp add: onSet_def Let_def fun_upd_idem)
  have w: "\<not> readOnly ?obj" "onChangeHandler ?obj = Some 9"
    by (simp_all add: clientLevel_def)
  have e: "onSet 0 ''__proto__'' (JString ''x'') ?c = (True, sendSyncCommand 0 ''__proto__'' ?s2)"
    unfolding step [OF oc w(1) as w(2)] by (simp add: valuesOf_def)
  have o2: "objects ?s2 0 = Some ?obj"
    using oc by (simp add: emit_def)
  have ob: "outbound ?s2 x = outbound ?c x" for x
    by (rule outbound_cong) (simp_all add: emit_def)
  have second: "onSet 0 ''__proto__'' (JString ''x'') ?c =
     (True, ?c\<lparr>effects := effects ?c @
        [Invoke 9 [Some (JObject [(''values'', JObject []), (''by'', JString ''client'')])],
         Transmit (syncFrame (Some (JString ''info'')) ''__proto__'' (JObject []))]\<rparr>)"
    unfolding e sendSyncCommand_eq [OF o2 lk] ob
    using ct by (simp add: emit_def outbound_def clientLevel_def)
  have third: "fst (onSet 0 ''__proto__'' (JString ''x'') ?c) = True \<and>
     objects (snd (onSet 0 ''__proto__'' (JString ''x'') ?c)) = objects ?c \<and>
     onGet 0 ''__proto__'' (snd (onSet 0 ''__proto__'' (JString ''x'') ?c)) = JObject [] \<and>
     invoked (added ?c (snd (onSet 0 ''__proto__'' (JString ''x'') ?c))) =
       [(9, [Some (JObject [(''values'', JObject []), (''by'', JString ''client'')])])] \<and>
     transmitted (added ?c (snd (onSet 0 ''__proto__'' (JString ''x'') ?c))) =
       [JObject [(''type'', JString ''sync''), (''name'', JString ''info''),
                 (''scope'', JString ''CLIENT''), (''key'', JString ''__proto__''),
                 (''value'', JObject []), (''command'', JBool True)]]"
    unfolding second
    using oc lk by (simp add: added_def onGet_def syncFrame_def)
  show ?thesis
    using first third by blast
qed

section \<open>Shared objects: the first inbound \<open>sync\<close>\<close>

text \<open>
  When the named object does not exist yet, each tier creates it with empty data and
  returns: the command's \<open>values\<close> are not read. When it exists, the values are
  assigned and the change listener is called once.
\<close>

lemma sync_creates_empty_global:
  assumes "field command ''scope'' = Some (JString ''GLOBAL'')"
    and "field command ''name'' = Some (JString n)"
    and "Map_get (globalSharedObjects s) (Some (JString n)) = None"
  shows "handleSync command s =
           s\<lparr>objects := (objects s)(nextRef s \<mapsto> globalLevel (Some (JString n)) Map.empty),
             nextRef := Suc (nextRef s),
             globalSharedObjects :=
               Map_set (globalSharedObjects s) (Some (JString n)) (nextRef s)\<rparr>"
  using assms by (simp add: handleSync_def setGlobalSharedObject_def allocate_def)

lemma sync_creates_empty_client:
  assumes "field command ''scope'' = Some (JString ''CLIENT'')"
    and "field command ''name'' = Some (JString n)"
    and "Map_get (clientSharedObjects s) (Some (JString n)) = None"
  shows "handleSync command s =
           s\<lparr>objects := (objects s)(nextRef s \<mapsto> clientLevel (Some (JString n)) Map.empty),
             nextRef := Suc (nextRef s),
             clientSharedObjects :=
               Map_set (clientSharedObjects s) (Some (JString n)) (nextRef s)\<rparr>"
  using assms by (simp add: handleSync_def setClientSharedObject_def allocate_def)

lemma sync_creates_empty_group:
  assumes "field command ''scope'' = Some (JString ''GROUP'')"
    and "field command ''name'' = Some (JString n)"
    and "field command ''group'' = Some (JString g)"
    and "Map_get (groupSharedObjects s) (Some (JString g)) = Some grp"
    and "Map_get grp (Some (JString n)) = None"
  shows "handleSync command s =
           s\<lparr>objects := (objects s)(nextRef s \<mapsto> groupLevel (Some (JString n)) Map.empty),
             nextRef := Suc (nextRef s),
             groupSharedObjects :=
               Map_set (groupSharedObjects s) (Some (JString g))
                 (Map_set grp (Some (JString n)) (nextRef s))\<rparr>"
  using assms by (simp add: handleSync_def setGroupSharedObject_def allocate_def Map_has_def)

lemma sync_existing_global:
  assumes "field command ''scope'' = Some (JString ''GLOBAL'')"
    and "Map_get (globalSharedObjects s) (field command ''name'') = Some r"
    and "objects s r = Some obj"
    and "field command ''values'' = Some values"
  shows "handleSync command s =
           s\<lparr>objects :=
               (objects s)(r \<mapsto> assignAll (forIn (Some values)) obj),
             effects := effects s @ changed obj values ''server''\<rparr>"
  using assms
  by (simp add: handleSync_def setGlobalSharedObject_def setProperties_def changed_def emit_def
      Let_def assignAll_keeps split: option.splits)

lemma first_sync_state:
  "handleCommand settingsSync connected =
     (Inr (), connected\<lparr>objects := [0 \<mapsto> globalLevel (Some (JString ''settings'')) Map.empty],
                         nextRef := Suc 0,
                         globalSharedObjects := [Some (JString ''settings'') \<mapsto> 0]\<rparr>)"
  by (simp add: settingsSync_def handleCommand_def handleSync_def setGlobalSharedObject_def
      allocate_def Map_get_def Map_set_def connected_eq opened_eq Let_def)

text \<open>
  Claim C1, at its own example. The first \<open>sync\<close> for \<open>settings\<close> creates the object,
  but reading \<open>bg\<close> and \<open>v\<close> afterwards gives \<open>null\<close>: the batch is lost. Only when the
  same command arrives a second time are the two keys applied.
\<close>

theorem first_sync_values_are_dropped:
  "fst (globalShared ''settings'' (snd (handleCommand settingsSync connected))) = 0 \<and>
   onGet 0 ''bg'' (snd (handleCommand settingsSync connected)) = JNull \<and>
   onGet 0 ''v'' (snd (handleCommand settingsSync connected)) = JNull \<and>
   onGet 0 ''bg'' (snd (handleCommand settingsSync (snd (handleCommand settingsSync connected)))) =
     JString ''blue'' \<and>
   onGet 0 ''v'' (snd (handleCommand settingsSync (snd (handleCommand settingsSync connected)))) =
     JNumber 2"
  by (simp only: first_sync_state snd_conv,
      simp add: settingsSync_def handleCommand_def handleSync_def setGlobalSharedObject_def
        globalShared_def setProperties_def globalLevel_def onGet_def lookup_def assign_def
        Map_get_def Map_set_def connected_eq opened_eq Let_def)

section \<open>RMI layer: the identifier of an outbound call\<close>

text \<open>Two calls of one callable, in any state: the two commands differ in \<open>args\<close> only,
  and the pending table holds the second promise under the shared \<open>id\<close>.\<close>

lemma remote_calls_share_id:
  "transmitted (added s (snd (remoteMethod_call m a2 (snd (remoteMethod_call m a1 s))))) =
     (if canTransmit s
      then [JObject [(''type'', JString ''rmi''), (''id'', JString (id m)),
                     (''name'', JString (property m)), (''args'', JArray a1),
                     (''command'', JBool True)],
            JObject [(''type'', JString ''rmi''), (''id'', JString (id m)),
                     (''name'', JString (property m)), (''args'', JArray a2),
                     (''command'', JBool True)]]
      else [])"
  and "Map_get (rmiResultCallbacks (snd (remoteMethod_call m a2 (snd (remoteMethod_call m a1 s)))))
         (Some (JString (id m))) = Some (Suc (nextPromise s))"
proof -
  have o: "outbound (s\<lparr>effects := es, nextPromise := n, rmiResultCallbacks := cs\<rparr>) x = outbound s x"
    for es n cs x
    by (rule outbound_cong) simp_all
  show "transmitted (added s (snd (remoteMethod_call m a2 (snd (remoteMethod_call m a1 s))))) =
     (if canTransmit s
      then [JObject [(''type'', JString ''rmi''), (''id'', JString (id m)),
                     (''name'', JString (property m)), (''args'', JArray a1),
                     (''command'', JBool True)],
            JObject [(''type'', JString ''rmi''), (''id'', JString (id m)),
                     (''name'', JString (property m)), (''args'', JArray a2),
                     (''command'', JBool True)]]
      else [])"
    by (simp add: remoteMethod_call_eq sendCommand_object added_def o transmitted_append
        transmitted_outbound)
  show "Map_get (rmiResultCallbacks (snd (remoteMethod_call m a2 (snd (remoteMethod_call m a1 s)))))
         (Some (JString (id m))) = Some (Suc (nextPromise s))"
    by (simp add: remoteMethod_call_eq sendCommand_object Map_get_set)
qed

text \<open>
  Claim C2, at two calls of one callable. The identifier is generated when the
  property is read, not when the callable is called: both \<open>rmi\<close> commands carry the
  same \<open>id\<close>, and the second call's promise replaces the first one's in the pending
  table, so promise \<open>0\<close> can never be settled.
\<close>

theorem one_callable_one_id:
  "fst (remoteMethod_call weather [JString ''Paris''] connected) = 0 \<and>
   fst (remoteMethod_call weather [JString ''Rome'']
          (snd (remoteMethod_call weather [JString ''Paris''] connected))) = 1 \<and>
   transmitted (added connected
     (snd (remoteMethod_call weather [JString ''Rome'']
             (snd (remoteMethod_call weather [JString ''Paris''] connected))))) =
     [JObject [(''type'', JString ''rmi''), (''id'', JString ''00001111-2222-3333-4444-555566667777''),
               (''name'', JString ''getWeather''), (''args'', JArray [JString ''Paris'']),
               (''command'', JBool True)],
      JObject [(''type'', JString ''rmi''), (''id'', JString ''00001111-2222-3333-4444-555566667777''),
               (''name'', JString ''getWeather''), (''args'', JArray [JString ''Rome'']),
               (''command'', JBool True)]] \<and>
   Map_get (rmiResultCallbacks
     (snd (remoteMethod_call weather [JString ''Rome'']
             (snd (remoteMethod_call weather [JString ''Paris''] connected)))))
     (Some (JString ''00001111-2222-3333-4444-555566667777'')) = Some 1 \<and>
   ran (rmiResultCallbacks
     (snd (remoteMethod_call weather [JString ''Rome'']
             (snd (remoteMethod_call weather [JString ''Paris''] connected))))) = {1}"
  by (simp add: remoteMethod_call_eq sendCommand_object added_def outbound_def canTransmit_def
      connected_eq opened_eq weather_eq Map_get_def Map_set_def)

section \<open>RMI layer: a local function that fails\<close>

text \<open>An inbound call of a registered function, in any state: a thrown exception
  propagates; a rejected promise (on which nothing else waits) is answered once.\<close>

lemma handleRMICommand_throws:
  assumes "rmiFunctions s (propertyKey (field command ''name'')) = Some f"
    and "spread (field command ''args'') = Inr args"
    and "f args = Throws e"
  shows "handleRMICommand command s = (Inl (Thrown e), s)"
  using assms by (simp add: handleRMICommand_def)

lemma handleRMICommand_rejected:
  assumes "rmiFunctions s (propertyKey (field command ''name'')) = Some f"
    and "spread (field command ''args'') = Inr args"
    and "f args = ReturnsPromise p"
    and "p \<notin> fst ` set (reactions s)"
    and "field command ''id'' = Some i"
  shows "handleRMICommand command s = (Inr (), s\<lparr>reactions := reactions s @ [(p, Some i)]\<rparr>)"
    and "added s (promiseSettled p (Rejected e) (snd (handleRMICommand command s))) =
           outbound s (JObject [(''type'', JString ''rmi-result''), (''id'', i), (''result'', JNull),
                                (''error'', JString ''function error''), (''command'', JBool True)])"
proof -
  show a: "handleRMICommand command s = (Inr (), s\<lparr>reactions := reactions s @ [(p, Some i)]\<rparr>)"
    using assms by (simp add: handleRMICommand_def)
  have f: "filter (\<lambda>pi. fst pi = p) (reactions s) = []"
    using assms(4) by (auto simp: filter_empty_conv)
  have o: "outbound (s\<lparr>reactions := rs\<rparr>) m = outbound s m" for rs m
    by (rule outbound_cong) simp_all
  show "added s (promiseSettled p (Rejected e) (snd (handleRMICommand command s))) =
           outbound s (JObject [(''type'', JString ''rmi-result''), (''id'', i), (''result'', JNull),
                                (''error'', JString ''function error''), (''command'', JBool True)])"
    by (simp add: a promiseSettled_def f sendRmiResultCommand_def sendCommand_object added_def o)
qed

text \<open>
  Claim C3, at a function that throws. The exception leaves \<open>handleCommand\<close> (and so
  the message listener), and no \<open>rmi-result\<close> is sent: the state is unchanged. The
  sibling path does what the claim says: when the function returns a promise that is
  rejected, exactly one \<open>rmi-result\<close> with \<open>error: 'function error'\<close> is sent.
\<close>

theorem thrown_exception_leaves_the_handler:
  "handleCommand (call ''f'') (functions_set ''f'' boom connected) =
     (Inl (Thrown (Some (JString ''boom''))), functions_set ''f'' boom connected) \<and>
   transmitted (added (functions_set ''g'' later connected)
     (promiseSettled 0 (Rejected (Some (JString ''no'')))
        (snd (handleCommand (call ''g'') (functions_set ''g'' later connected))))) =
     [JObject [(''type'', JString ''rmi-result''), (''id'', JString ''r1''), (''result'', JNull),
               (''error'', JString ''function error''), (''command'', JBool True)]]"
  by (simp add: handleCommand_def handleRMICommand_def functions_set_def boom_def later_def
      call_def promiseSettled_def sendRmiResultCommand_def sendCommand_object added_def
      outbound_def canTransmit_def connected_eq opened_eq Let_def)

end
